theory Spec2Isabelle
  imports Main
begin

section \<open>Python values, exceptions and the library interface\<close>

text \<open>
  The script \<^verbatim>\<open>gws-get-logs-2.py\<close> exports activity records of a reporting API to
  newline-delimited JSON files. Its values are Python objects: \<open>None\<close>, booleans,
  integers, strings, lists and dictionaries (everything \<^verbatim>\<open>json.load\<close> and the API client
  return), and the \<^verbatim>\<open>datetime\<close> objects that \<^verbatim>\<open>dateparser.parse\<close> returns. A dictionary
  is an association list in insertion order.

  A datetime is its instant in microseconds (the resolution of \<^verbatim>\<open>datetime\<close>) together
  with its offset from UTC: \<open>None\<close> for an offset-naive datetime, whose instant is that
  of its wall clock, and the offset for an offset-aware one, whose instant is counted in
  UTC.
\<close>

datatype datetime = Datetime (instant: int) (utcoffset: "int option")

datatype pyval =
    PNone
  | PBool bool
  | PInt int
  | PStr string
  | PDate datetime
  | PList "pyval list"
  | PDict "(string \<times> pyval) list"

text \<open>Python's truth value of an object, as \<^verbatim>\<open>if x\<close>, \<^verbatim>\<open>not x\<close> and \<^verbatim>\<open>x or y\<close> test it.
  A \<^verbatim>\<open>datetime\<close> is always true.\<close>

fun truthy :: "pyval \<Rightarrow> bool" where
  "truthy PNone = False"
| "truthy (PBool b) = b"
| "truthy (PInt i) = (i \<noteq> 0)"
| "truthy (PStr s) = (s \<noteq> [])"
| "truthy (PDate t) = True"
| "truthy (PList xs) = (xs \<noteq> [])"
| "truthy (PDict kvs) = (kvs \<noteq> [])"

text \<open>The exceptions the script can meet. \<open>RemoteError\<close> stands for whatever the API client
  raises that is not a \<^verbatim>\<open>TypeError\<close> (an HTTP error, a transport error); \<open>SetupError\<close> for a
  failure to load the credentials.\<close>

datatype error =
    TypeError
  | KeyError
  | AttributeError
  | ValueError
  | JSONDecodeError
  | ParserError
  | OverflowError
  | FileNotFoundError
  | RemoteError
  | SetupError

text \<open>\<^verbatim>\<open>obj[key]\<close> with a string key: only a dictionary can be subscripted that way.\<close>

fun subscript :: "pyval \<Rightarrow> string \<Rightarrow> error + pyval" where
  "subscript (PDict kvs) k = (case map_of kvs k of None \<Rightarrow> Inl KeyError | Some v \<Rightarrow> Inr v)"
| "subscript v k = Inl TypeError"

text \<open>
  The functions of the Python libraries the script calls are parameters of the model:
  \<^item> \<open>json_loads\<close>: \<^verbatim>\<open>json.loads\<close>, \<open>None\<close> when it raises \<^verbatim>\<open>JSONDecodeError\<close>;
  \<^item> \<open>json_dumps\<close>: \<^verbatim>\<open>json.dumps\<close>;
  \<^item> \<open>dateparse\<close>: \<^verbatim>\<open>dateutil.parser.parse\<close> on a string, \<open>None\<close> when it raises
    \<^verbatim>\<open>ParserError\<close>;
  \<^item> \<open>datetime_str\<close>: \<^verbatim>\<open>str\<close> of a datetime, as an f-string renders it;
  \<^item> \<open>py_str\<close>: \<^verbatim>\<open>str\<close> of an integer, a list or a dictionary;
  \<^item> \<open>strptime\<close>, \<open>strftime\<close>: \<^verbatim>\<open>datetime.strptime\<close> and \<^verbatim>\<open>datetime.strftime\<close> with the
    script's format \<^verbatim>\<open>%Y-%m-%dT%H:%M:%SZ\<close>; \<open>strptime\<close> is \<open>None\<close> when it raises
    \<^verbatim>\<open>ValueError\<close>. The \<^verbatim>\<open>Z\<close> of the format is a literal, so these datetimes are
    offset-naive; they are given by their instant alone, in microseconds from
    0001-01-01T00:00:00, the first datetime there is.
\<close>

record pylib =
  json_loads :: "string \<Rightarrow> pyval option"
  json_dumps :: "pyval \<Rightarrow> string"
  dateparse :: "string \<Rightarrow> datetime option"
  datetime_str :: "datetime \<Rightarrow> string"
  py_str :: "pyval \<Rightarrow> string"
  strptime :: "string \<Rightarrow> int option"
  strftime :: "int \<Rightarrow> string"

text \<open>\<^verbatim>\<open>dateparser.parse(x)\<close>: a \<^verbatim>\<open>TypeError\<close> unless \<open>x\<close> is a string.\<close>

fun dateparser_parse :: "pylib \<Rightarrow> pyval \<Rightarrow> error + datetime" where
  "dateparser_parse L (PStr s) =
     (case dateparse L s of None \<Rightarrow> Inl ParserError | Some t \<Rightarrow> Inr t)"
| "dateparser_parse L v = Inl TypeError"

text \<open>\<^verbatim>\<open>a < b\<close> on datetimes: two offset-naive or two offset-aware datetimes are compared
  by their instants; comparing an offset-naive with an offset-aware one raises
  \<^verbatim>\<open>TypeError\<close>.\<close>

definition datetime_less :: "datetime \<Rightarrow> datetime \<Rightarrow> error + bool" where
  "datetime_less a b =
     (if (utcoffset a = None) = (utcoffset b = None) then Inr (instant a < instant b)
      else Inl TypeError)"

text \<open>An f-string field \<^verbatim>\<open>{x}\<close>: a string as it is, any other value through
  \<^verbatim>\<open>str\<close>. In the script \<open>from_date\<close> and \<open>to_date\<close> are \<open>None\<close>, a string or a
  datetime, unless the configuration file supplies something else.\<close>

fun fstr :: "pylib \<Rightarrow> pyval \<Rightarrow> string" where
  "fstr L PNone = ''None''"
| "fstr L (PStr s) = s"
| "fstr L (PDate t) = datetime_str L t"
| "fstr L (PBool b) = (if b then ''True'' else ''False'')"
| "fstr L v = py_str L v"

section \<open>The file system\<close>

text \<open>
  A file is its text, as it is stored on a POSIX system, where writing in text mode leaves
  a newline as it is. The state holds the files by path, the directories that exist, and
  the number of times a file was opened with mode \<^verbatim>\<open>'w'\<close> (each such open truncates it).
\<close>

record fsys =
  files :: "string \<rightharpoonup> string"
  dirs :: "string set"
  truncations :: "string \<Rightarrow> nat"

datatype open_mode = ModeW | ModeA

text \<open>\<^verbatim>\<open>open(path, 'w')\<close> creates or truncates; \<^verbatim>\<open>open(path, 'a')\<close> creates the file when
  absent and keeps its text otherwise.\<close>

fun open_for_write :: "open_mode \<Rightarrow> string \<Rightarrow> fsys \<Rightarrow> fsys" where
  "open_for_write ModeW path fs =
     fs\<lparr>files := (files fs)(path \<mapsto> []),
        truncations := (truncations fs)(path := Suc (truncations fs path))\<rparr>"
| "open_for_write ModeA path fs =
     (case files fs path of
        None \<Rightarrow> fs\<lparr>files := (files fs)(path \<mapsto> [])\<rparr>
      | Some old \<Rightarrow> fs)"

text \<open>\<^verbatim>\<open>output.write(s)\<close> on a file opened for writing: the text goes to the end.\<close>

definition write_text :: "string \<Rightarrow> string \<Rightarrow> fsys \<Rightarrow> fsys" where
  "write_text path s fs =
     fs\<lparr>files := (files fs)(path \<mapsto> (case files fs path of None \<Rightarrow> s | Some old \<Rightarrow> old @ s))\<rparr>"

text \<open>Reading in text mode (\<^verbatim>\<open>open(path, 'r')\<close>) has universal newlines: a carriage
  return followed by a line feed, and a carriage return alone, are read as one line
  feed.\<close>

fun translate_newlines :: "string \<Rightarrow> string" where
  "translate_newlines [] = []"
| "translate_newlines [c] = [if c = CHR 0x0D then CHR 0x0A else c]"
| "translate_newlines (c # d # cs) =
     (if c = CHR 0x0D \<and> d = CHR 0x0A then CHR 0x0A # translate_newlines cs
      else if c = CHR 0x0D then CHR 0x0A # translate_newlines (d # cs)
      else c # translate_newlines (d # cs))"

text \<open>The lines of a text that has been read: each with its terminating line feed; a last
  line without one is kept as it is.\<close>

fun split_lines :: "string \<Rightarrow> string list" where
  "split_lines [] = []"
| "split_lines (c # cs) =
     (if c = CHR 0x0A then [c] # split_lines cs
      else (case split_lines cs of [] \<Rightarrow> [[c]] | l # ls \<Rightarrow> (c # l) # ls))"

text \<open>\<^verbatim>\<open>f.readlines()\<close> on the text of a file.\<close>

definition readlines :: "string \<Rightarrow> string list" where
  "readlines content = split_lines (translate_newlines content)"

section \<open>The incremental-update scanner\<close>

text \<open>The body of the scanner's loop up to the parsed timestamp:
  \<^verbatim>\<open>json_obj = json.loads(line); line_datetime = dateparser.parse(json_obj['id']['time'])\<close>.\<close>

definition line_datetime :: "pylib \<Rightarrow> string \<Rightarrow> error + datetime" where
  "line_datetime L line =
     (case json_loads L line of
        None \<Rightarrow> Inl JSONDecodeError
      | Some json_obj \<Rightarrow>
          (case subscript json_obj ''id'' of
             Inl e \<Rightarrow> Inl e
           | Inr idv \<Rightarrow>
               (case subscript idv ''time'' of
                  Inl e \<Rightarrow> Inl e
                | Inr tv \<Rightarrow> dateparser_parse L tv)))"

text \<open>The loop over the lines, \<open>return_date\<close> being the loop's variable. The comparison
  \<^verbatim>\<open>return_date < line_datetime\<close> is made from the second line on, and may raise.\<close>

fun scan_lines :: "pylib \<Rightarrow> string list \<Rightarrow> datetime option \<Rightarrow> error + datetime option" where
  "scan_lines L [] return_date = Inr return_date"
| "scan_lines L (line # rest) return_date =
     (case line_datetime L line of
        Inl e \<Rightarrow> Inl e
      | Inr t \<Rightarrow>
          (case return_date of
             None \<Rightarrow> scan_lines L rest (Some t)
           | Some r \<Rightarrow>
               (case datetime_less r t of
                  Inl e \<Rightarrow> Inl e
                | Inr older \<Rightarrow>
                    if older then scan_lines L rest (Some t)
                    else scan_lines L rest (Some r))))"

text \<open>\<^verbatim>\<open>Google._check_recent_date\<close>: \<open>None\<close> when the file does not exist.\<close>

definition check_recent_date :: "pylib \<Rightarrow> fsys \<Rightarrow> string \<Rightarrow> error + datetime option" where
  "check_recent_date L fs log_file_path =
     (case files fs log_file_path of
        None \<Rightarrow> Inr None
      | Some content \<Rightarrow> scan_lines L (readlines content) None)"

text \<open>An object that has no \<open>id.time\<close>: \<^verbatim>\<open>json_obj['id']\<close> raises, or
  \<^verbatim>\<open>json_obj['id']['time']\<close> does.\<close>

definition lacks_id_time :: "pyval \<Rightarrow> bool" where
  "lacks_id_time json_obj =
     (case subscript json_obj ''id'' of
        Inl e \<Rightarrow> True
      | Inr idv \<Rightarrow> isl (subscript idv ''time''))"

section \<open>The paginator and the writer\<close>

text \<open>
  The response of one \<^verbatim>\<open>activities().list(...).execute()\<close> call is a dictionary of which
  the script reads two keys, each of which may be missing. The remote service is a function
  of the call's arguments \<open>applicationName\<close>, \<open>pageToken\<close> (\<open>None\<close> on the first
  call), \<open>startTime\<close> and \<open>endTime\<close>; it answers with a response or raises.
\<close>

record response =
  items :: "pyval list option"
  nextPageToken :: "string option"

type_synonym service = "string \<Rightarrow> string option \<Rightarrow> pyval \<Rightarrow> pyval \<Rightarrow> error + response"

text \<open>\<^verbatim>\<open>activities = results.get('items', [])\<close>\<close>

definition activities_of :: "response \<Rightarrow> pyval list" where
  "activities_of results = (case items results of None \<Rightarrow> [] | Some acts \<Rightarrow> acts)"

text \<open>What \<^verbatim>\<open>_get_activity_logs\<close> returns in each position of its pair: a count, or
  \<^verbatim>\<open>False\<close> after a caught error. \<open>count_int\<close> is the integer Python adds for it
  (\<^verbatim>\<open>False\<close> is 0, \<^verbatim>\<open>True\<close> is 1).\<close>

datatype count = CInt nat | CBool bool

fun count_int :: "count \<Rightarrow> nat" where
  "count_int (CInt n) = n"
| "count_int (CBool b) = (if b then 1 else 0)"

text \<open>The inner loop \<^verbatim>\<open>for entry in activities[::-1]\<close>, over the already reversed list:
  one line per entry, \<open>output_count\<close> incremented with each.\<close>

fun write_entries :: "pylib \<Rightarrow> string \<Rightarrow> pyval list \<Rightarrow> nat \<Rightarrow> fsys \<Rightarrow> nat \<times> fsys" where
  "write_entries L output_file [] output_count fs = (output_count, fs)"
| "write_entries L output_file (entry # rest) output_count fs =
     write_entries L output_file rest (Suc output_count)
       (write_text output_file (json_dumps L entry @ [CHR 0x0A]) fs)"

text \<open>The block \<^verbatim>\<open>if activities: ...\<close> of one iteration: the file is opened anew for each
  page that has records, with mode \<^verbatim>\<open>'w' if overwrite else 'a'\<close>.\<close>

definition write_page ::
  "pylib \<Rightarrow> string \<Rightarrow> pyval \<Rightarrow> pyval list \<Rightarrow> nat \<Rightarrow> nat \<Rightarrow> fsys \<Rightarrow> nat \<times> nat \<times> fsys" where
  "write_page L output_file overwrite activities output_count total_records fs =
     (if activities \<noteq> [] then
        (case write_entries L output_file (rev activities) output_count
                (open_for_write (if truthy overwrite then ModeW else ModeA) output_file fs) of
           (oc, fs') \<Rightarrow> (oc, total_records + length activities, fs'))
      else (output_count, total_records, fs))"

text \<open>
  The \<^verbatim>\<open>while True\<close> loop of \<^verbatim>\<open>_get_activity_logs\<close>, with the loop's variables
  \<open>page_token\<close>, \<open>output_count\<close> and \<open>total_records\<close> as arguments. Nothing bounds the
  number of pages, so the loop is a partial function: \<open>None\<close> is a run that never
  returns. A returning run gives the file system it leaves and either the exception that
  escapes or the returned pair.
\<close>

partial_function (option) activity_loop ::
  "pylib \<Rightarrow> service \<Rightarrow> string \<Rightarrow> string \<Rightarrow> pyval \<Rightarrow> pyval \<Rightarrow> pyval \<Rightarrow>
     string option \<Rightarrow> nat \<Rightarrow> nat \<Rightarrow> fsys \<Rightarrow> (fsys \<times> (error + count \<times> count)) option" where
  "activity_loop L svc application_name output_file overwrite start_time end_time
       page_token output_count total_records fs =
     (case svc application_name page_token start_time end_time of
        Inl e \<Rightarrow>
          if e = TypeError then Some (fs, Inr (CBool False, CBool False))
          else Some (fs, Inl e)
      | Inr results \<Rightarrow>
          (case write_page L output_file overwrite (activities_of results)
                  output_count total_records fs of
             (oc, tr, fs') \<Rightarrow>
               (case nextPageToken results of
                  None \<Rightarrow> Some (fs', Inr (CInt oc, CInt tr))
                | Some tok \<Rightarrow>
                    if tok = [] then Some (fs', Inr (CInt oc, CInt tr))
                    else activity_loop L svc application_name output_file overwrite
                           start_time end_time (Some tok) oc tr fs')))"

definition get_activity_logs ::
  "pylib \<Rightarrow> service \<Rightarrow> string \<Rightarrow> string \<Rightarrow> pyval \<Rightarrow> pyval \<Rightarrow> pyval \<Rightarrow> fsys \<Rightarrow>
     (fsys \<times> (error + count \<times> count)) option" where
  "get_activity_logs L svc application_name output_file overwrite start_time end_time fs =
     activity_loop L svc application_name output_file overwrite start_time end_time
       None 0 0 fs"

text \<open>The text one page adds to the file: its records in reverse order, one line each.\<close>

definition page_text :: "pylib \<Rightarrow> pyval list \<Rightarrow> string" where
  "page_text L activities =
     concat (map (\<lambda>entry. json_dumps L entry @ [CHR 0x0A]) (rev activities))"

text \<open>The text of a file, empty for a file that does not exist.\<close>

definition file_text :: "fsys \<Rightarrow> string \<Rightarrow> string" where
  "file_text fs path = (case files fs path of None \<Rightarrow> [] | Some t \<Rightarrow> t)"

text \<open>
  A paginated response sequence: from the page token \<open>tok\<close> on, the service answers the
  calls for one application and window with the responses \<open>rs\<close> in turn, each but the
  last carrying the (non-empty) token of the next call, the last carrying none.
\<close>

fun serves ::
  "service \<Rightarrow> string \<Rightarrow> pyval \<Rightarrow> pyval \<Rightarrow> string option \<Rightarrow> response list \<Rightarrow> bool" where
  "serves svc app st en tok [] = False"
| "serves svc app st en tok [r] =
     (svc app tok st en = Inr r \<and> (nextPageToken r = None \<or> nextPageToken r = Some []))"
| "serves svc app st en tok (r # r' # rs) =
     (svc app tok st en = Inr r \<and>
      (case nextPageToken r of
         None \<Rightarrow> False
       | Some t \<Rightarrow> t \<noteq> [] \<and> serves svc app st en (Some t) (r' # rs)))"

text \<open>The number of records in a sequence of responses.\<close>

definition records_of :: "response list \<Rightarrow> nat" where
  "records_of rs = sum_list (map (\<lambda>r. length (activities_of r)) rs)"

section \<open>Collecting the applications: \<open>get_logs\<close>\<close>

text \<open>The fields of a \<^verbatim>\<open>Google\<close> object. \<open>app_list\<close> is the list the \<^verbatim>\<open>for app in\<close> loop
  runs over; \<open>update\<close> and \<open>overwrite\<close> are whatever values the arguments held (only their
  truth value is used).\<close>

record google =
  SERVICE_ACCOUNT_FILE :: pyval
  delegated_creds :: pyval
  output_path :: pyval
  app_list :: "string list"
  update :: pyval
  overwrite :: pyval
  service :: service

text \<open>One invocation of \<^verbatim>\<open>_get_activity_logs\<close>, as \<^verbatim>\<open>get_logs\<close> makes it: the application,
  the output file, and the window's \<open>start_time\<close> and \<open>end_time\<close>.\<close>

record fetch =
  fetch_app :: string
  fetch_file :: string
  fetch_start :: pyval
  fetch_end :: pyval

text \<open>\<^verbatim>\<open>Path(folder).mkdir(parents=True, exist_ok=True)\<close>; the parents are not tracked.\<close>

definition mkdir :: "string \<Rightarrow> fsys \<Rightarrow> fsys" where
  "mkdir folder fs = fs\<lparr>dirs := insert folder (dirs fs)\<rparr>"

text \<open>\<^verbatim>\<open>from_date = self._check_recent_date(output_file) or from_date\<close>: a datetime is
  true, so the scanner's result is taken whenever it is not \<open>None\<close>.\<close>

definition recent_or :: "pylib \<Rightarrow> fsys \<Rightarrow> string \<Rightarrow> pyval \<Rightarrow> error + pyval" where
  "recent_or L fs output_file from_date =
     (case check_recent_date L fs output_file of
        Inl e \<Rightarrow> Inl e
      | Inr None \<Rightarrow> Inr from_date
      | Inr (Some t) \<Rightarrow> Inr (PDate t))"

text \<open>The two f-strings of \<^verbatim>\<open>get_logs\<close>:
  \<^verbatim>\<open>folder = f"{self.output_path}/{from_date}_{to_date}"\<close> and
  \<^verbatim>\<open>output_file = f"{folder}/{app}_logs.json"\<close>.\<close>

definition log_folder :: "pylib \<Rightarrow> google \<Rightarrow> pyval \<Rightarrow> pyval \<Rightarrow> string" where
  "log_folder L g from_date to_date =
     fstr L (output_path g) @ ''/'' @ fstr L from_date @ ''_'' @ fstr L to_date"

definition log_file :: "pylib \<Rightarrow> google \<Rightarrow> pyval \<Rightarrow> pyval \<Rightarrow> string \<Rightarrow> string" where
  "log_file L g from_date to_date app =
     log_folder L g from_date to_date @ ''/'' @ app @ ''_logs.json''"

text \<open>\<^verbatim>\<open>if not Path(folder).exists(): Path(folder).mkdir(...)\<close>\<close>

definition ensure_folder :: "string \<Rightarrow> fsys \<Rightarrow> fsys" where
  "ensure_folder folder fs = (if folder \<in> dirs fs then fs else mkdir folder fs)"

text \<open>\<^verbatim>\<open>if self.update: from_date = ... or from_date\<close>: the value of \<open>from_date\<close> after
  these two lines, or the exception the scanner raised.\<close>

definition effective_start :: "pylib \<Rightarrow> google \<Rightarrow> fsys \<Rightarrow> string \<Rightarrow> pyval \<Rightarrow> error + pyval" where
  "effective_start L g fs output_file from_date =
     (if truthy (update g) then recent_or L fs output_file from_date else Inr from_date)"

text \<open>
  The loop \<^verbatim>\<open>for app in self.app_list\<close> of \<^verbatim>\<open>get_logs\<close>. The variable \<open>from_date\<close> is
  assigned inside the loop and read again by the next iteration, so it is an argument of
  the recursion like the two totals. The result is \<open>None\<close> when a fetch never returns;
  otherwise the file system, the fetches made in order, and the exception that escaped or
  the totals \<open>(total_saved, total_found)\<close>.
\<close>

fun get_logs_loop ::
  "pylib \<Rightarrow> google \<Rightarrow> string list \<Rightarrow> pyval \<Rightarrow> pyval \<Rightarrow> nat \<Rightarrow> nat \<Rightarrow> fsys \<Rightarrow>
     (fsys \<times> fetch list \<times> (error + nat \<times> nat)) option" where
  "get_logs_loop L g [] from_date to_date total_saved total_found fs =
     Some (fs, [], Inr (total_saved, total_found))"
| "get_logs_loop L g (app # apps) from_date to_date total_saved total_found fs =
     (let fs1 = ensure_folder (log_folder L g from_date to_date) fs;
          output_file = log_file L g from_date to_date app
      in case effective_start L g fs1 output_file from_date of
           Inl e \<Rightarrow> Some (fs1, [], Inl e)
         | Inr from_date' \<Rightarrow>
             (let call = \<lparr>fetch_app = app, fetch_file = output_file,
                          fetch_start = from_date', fetch_end = to_date\<rparr>
              in case get_activity_logs L (service g) app output_file (overwrite g)
                        from_date' to_date fs1 of
                   None \<Rightarrow> None
                 | Some (fs2, Inl e) \<Rightarrow> Some (fs2, [call], Inl e)
                 | Some (fs2, Inr (saved, found)) \<Rightarrow>
                     (case get_logs_loop L g apps from_date' to_date
                             (total_saved + count_int saved) (total_found + count_int found) fs2 of
                        None \<Rightarrow> None
                      | Some (fs3, calls, r) \<Rightarrow> Some (fs3, call # calls, r))))"

definition get_logs ::
  "pylib \<Rightarrow> google \<Rightarrow> pyval \<Rightarrow> pyval \<Rightarrow> fsys \<Rightarrow>
     (fsys \<times> fetch list \<times> (error + nat \<times> nat)) option" where
  "get_logs L g from_date to_date fs = get_logs_loop L g (app_list g) from_date to_date 0 0 fs"

section \<open>The day splitter\<close>

text \<open>One day in microseconds; \<^verbatim>\<open>datetime.time.min\<close> is 00:00:00 and \<^verbatim>\<open>datetime.time.max\<close>
  is 23:59:59.999999, the last microsecond of the day.\<close>

definition DAY :: int where
  "DAY = 86400000000"

definition get_start_of_the_day :: "int \<Rightarrow> int" where
  "get_start_of_the_day day = (day div DAY) * DAY"

definition get_end_of_the_day :: "int \<Rightarrow> int" where
  "get_end_of_the_day day = (day div DAY) * DAY + (DAY - 1)"


text \<open>The first instant after the last datetime there is, 9999-12-31T23:59:59.999999:
  the calendar of \<^verbatim>\<open>datetime\<close> has 3652059 days.\<close>

definition DATETIME_END :: int where
  "DATETIME_END = 3652059 * DAY"

text \<open>The last two lines of the loop's body:
  \<^verbatim>\<open>start_time = start_time + datetime.timedelta(days=1)\<close> and
  \<^verbatim>\<open>start_time = get_start_of_the_day(start_time)\<close>, when the sum is a datetime.\<close>

definition next_day :: "int \<Rightarrow> int" where
  "next_day start_time = get_start_of_the_day (start_time + DAY)"

text \<open>
  The \<^verbatim>\<open>while start_time < end_time\<close> loop of the main program. Each iteration calls
  \<^verbatim>\<open>google.get_logs\<close> with the window \<open>(start_time, end_of_day)\<close> rendered by \<^verbatim>\<open>strftime\<close>,
  and then moves \<open>start_time\<close> to the start of the next day; the sum
  \<^verbatim>\<open>start_time + datetime.timedelta(days=1)\<close> raises \<^verbatim>\<open>OverflowError\<close> when it is past the
  last datetime. The loop ends at the first exception. Its result, when every fetch
  returns, is the file system, the windows of the \<^verbatim>\<open>get_logs\<close> calls made, the fetches these
  calls made, and the exception that ended the loop, if any.
\<close>

function daily_loop ::
  "pylib \<Rightarrow> google \<Rightarrow> int \<Rightarrow> int \<Rightarrow> fsys \<Rightarrow>
     (fsys \<times> (int \<times> int) list \<times> fetch list \<times> (error + unit)) option" where
  "daily_loop L g start_time end_time fs =
     (if start_time < end_time then
        (let end_of_day = (if get_end_of_the_day start_time > end_time then end_time
                           else get_end_of_the_day start_time)
         in case get_logs L g (PStr (strftime L start_time)) (PStr (strftime L end_of_day)) fs of
              None \<Rightarrow> None
            | Some (fs1, calls, Inl e) \<Rightarrow> Some (fs1, [(start_time, end_of_day)], calls, Inl e)
            | Some (fs1, calls, Inr totals) \<Rightarrow>
                if DATETIME_END \<le> start_time + DAY
                then Some (fs1, [(start_time, end_of_day)], calls, Inl OverflowError)
                else (case daily_loop L g (next_day start_time) end_time fs1 of
                        None \<Rightarrow> None
                      | Some (fs2, windows, calls', r) \<Rightarrow>
                          Some (fs2, (start_time, end_of_day) # windows, calls @ calls', r)))
      else Some (fs, [], [], Inr ()))"
  by pat_completeness auto
termination
  apply (relation "measure (\<lambda>(L, g, start_time, end_time, fs). nat (end_time - start_time))")
   apply simp
  subgoal premises prems for L g start_time end_time
  proof -
    have m: "start_time mod DAY < DAY" by (simp add: DAY_def)
    have d: "(start_time + DAY) div DAY = start_time div DAY + 1"
      by (simp add: DAY_def)
    have "(start_time div DAY) * DAY = start_time - start_time mod DAY"
      by (simp add: minus_mod_eq_div_mult)
    with d have "next_day start_time = start_time - start_time mod DAY + DAY"
      unfolding next_day_def get_start_of_the_day_def by (simp only: distrib_right mult_1)
    with m have "start_time < next_day start_time" by linarith
    with prems(1) show ?thesis by simp
  qed
  done

declare daily_loop.simps [simp del]

section \<open>The command line, the configuration file and the main program\<close>

definition DEFAULT_APPLICATIONS :: "string list" where
  "DEFAULT_APPLICATIONS =
     [''chrome'', ''admin'', ''access_transparency'', ''context_aware_access'', ''gplus'',
      ''data_studio'', ''mobile'', ''groups_enterprise'', ''calendar'', ''chat'', ''gcp'',
      ''drive'', ''groups'', ''keep'', ''meet'', ''jamboard'', ''login'', ''token'', ''rules'',
      ''saml'', ''user_accounts'']"

text \<open>\<^verbatim>\<open>sep.join(xs)\<close>, \<^verbatim>\<open>s.split(sep)\<close> for a one-character separator, \<^verbatim>\<open>s.strip()\<close> and
  \<^verbatim>\<open>s.lower()\<close> on ASCII text.\<close>

fun join :: "string \<Rightarrow> string list \<Rightarrow> string" where
  "join sep [] = []"
| "join sep [x] = x"
| "join sep (x # y # ys) = x @ sep @ join sep (y # ys)"

fun split_on :: "char \<Rightarrow> string \<Rightarrow> string list" where
  "split_on sep [] = [[]]"
| "split_on sep (c # cs) =
     (if c = sep then [] # split_on sep cs
      else (case split_on sep cs of [] \<Rightarrow> [[c]] | l # ls \<Rightarrow> (c # l) # ls))"

definition is_space :: "char \<Rightarrow> bool" where
  "is_space c = ((of_char c :: nat) \<in> {9, 10, 11, 12, 13, 28, 29, 30, 31, 32})"

definition strip :: "string \<Rightarrow> string" where
  "strip s = rev (dropWhile is_space (rev (dropWhile is_space s)))"

definition lower :: "string \<Rightarrow> string" where
  "lower s = map (\<lambda>c. if 65 \<le> (of_char c :: nat) \<and> (of_char c :: nat) \<le> 90
                       then char_of (of_char c + 32 :: nat) else c) s"

text \<open>
  What was given on the command line. An option that takes a value is \<open>None\<close> when it
  was not given; the three \<^verbatim>\<open>store_true\<close> flags are booleans; \<open>opt_log_level\<close> is the
  constant that \<^verbatim>\<open>--quiet\<close> or \<^verbatim>\<open>--debug\<close> stored, if either was given.
\<close>

record cli =
  opt_config :: "string option"
  opt_creds_path :: "string option"
  opt_delegated_creds :: "string option"
  opt_output_path :: "string option"
  opt_apps :: "string option"
  opt_start_time :: "string option"
  opt_end_time :: "string option"
  opt_daily :: bool
  opt_update :: bool
  opt_overwrite :: bool
  opt_log_level :: "int option"

definition opt_str :: "string option \<Rightarrow> pyval" where
  "opt_str v = (case v of None \<Rightarrow> PNone | Some s \<Rightarrow> PStr s)"

text \<open>\<^verbatim>\<open>parser.parse_args()\<close>: the namespace has one attribute for each argument the parser
  defines, with the argument's default when it was not given (\<^verbatim>\<open>logging.INFO\<close> is 20).\<close>

definition parse_args :: "cli \<Rightarrow> (string \<rightharpoonup> pyval)" where
  "parse_args c =
     [''config'' \<mapsto> PStr (case opt_config c of None \<Rightarrow> ''config.json'' | Some p \<Rightarrow> p),
      ''creds_path'' \<mapsto> opt_str (opt_creds_path c),
      ''delegated_creds'' \<mapsto> opt_str (opt_delegated_creds c),
      ''output_path'' \<mapsto> opt_str (opt_output_path c),
      ''apps'' \<mapsto> PStr (case opt_apps c of None \<Rightarrow> join '','' DEFAULT_APPLICATIONS | Some a \<Rightarrow> a),
      ''start_time'' \<mapsto> opt_str (opt_start_time c),
      ''end_time'' \<mapsto> opt_str (opt_end_time c),
      ''daily'' \<mapsto> PBool (opt_daily c),
      ''update'' \<mapsto> PBool (opt_update c),
      ''overwrite'' \<mapsto> PBool (opt_overwrite c),
      ''log_level'' \<mapsto> PInt (case opt_log_level c of None \<Rightarrow> 20 | Some l \<Rightarrow> l)]"

text \<open>
  The merge loop \<^verbatim>\<open>for key in config: if key not in args or not vars(args)[key]:
  vars(args)[key] = config[key]\<close>, over the items of the configuration object in order
  (a dictionary has each key once, so \<open>config[key]\<close> is the item's value).
\<close>

fun merge_config :: "(string \<times> pyval) list \<Rightarrow> (string \<rightharpoonup> pyval) \<Rightarrow> (string \<rightharpoonup> pyval)" where
  "merge_config [] args = args"
| "merge_config ((key, v) # config) args =
     merge_config config
       (case args key of
          None \<Rightarrow> args(key \<mapsto> v)
        | Some a \<Rightarrow> if \<not> truthy a then args(key \<mapsto> v) else args)"

text \<open>
  What the program finds outside itself:
  \<^item> \<open>config_file\<close>: the JSON object stored in the file at a path, \<open>None\<close> when no file
    is there;
  \<^item> \<open>application_list\<close>: what \<^verbatim>\<open>Google.get_application_list()\<close> fetches from the
    discovery document;
  \<^item> \<open>google_session\<close>: the client that the credential file and the delegated principal
    give, or the failure to build one;
  \<^item> \<open>exists_fd\<close>: what \<^verbatim>\<open>os.path.exists\<close> answers for an integer, which it takes for a
    file descriptor: whether the descriptor is open, or the exception that escapes it
    (\<^verbatim>\<open>OverflowError\<close> for an integer no descriptor can be).
\<close>

record world =
  config_file :: "string \<Rightarrow> (string \<times> pyval) list option"
  application_list :: "error + string list"
  google_session :: "pyval \<Rightarrow> pyval \<Rightarrow> error + service"
  exists_fd :: "int \<Rightarrow> error + bool"

text \<open>\<^verbatim>\<open>if args.config and os.path.exists(args.config): ...\<close>\<close>

definition load_config :: "world \<Rightarrow> (string \<rightharpoonup> pyval) \<Rightarrow> (string \<rightharpoonup> pyval)" where
  "load_config W args =
     (case args ''config'' of
        Some (PStr p) \<Rightarrow>
          (if p \<noteq> [] then
             (case config_file W p of None \<Rightarrow> args | Some config \<Rightarrow> merge_config config args)
           else args)
      | _ \<Rightarrow> args)"

text \<open>The items of the configuration object that \<open>load_config\<close> merges for a command
  line: those of the file named by \<open>--config\<close> (or of \<^verbatim>\<open>config.json\<close>), none when there
  is no such file.\<close>

definition config_of :: "world \<Rightarrow> cli \<Rightarrow> (string \<times> pyval) list" where
  "config_of W c =
     (let p = (case opt_config c of None \<Rightarrow> ''config.json'' | Some p \<Rightarrow> p)
      in if p \<noteq> [] then (case config_file W p of None \<Rightarrow> [] | Some config \<Rightarrow> config)
         else [])"

text \<open>The conversion of \<open>args.apps\<close> to the list of names. Only a string has \<^verbatim>\<open>strip\<close>; an
  empty string is left as it is, and a loop over it runs no iteration.\<close>

definition convert_apps :: "world \<Rightarrow> pyval \<Rightarrow> error + string list" where
  "convert_apps W apps =
     (case apps of
        PStr s \<Rightarrow>
          if lower (strip s) = ''all'' then application_list W
          else if s \<noteq> [] then Inr (map (\<lambda>a. lower (strip a)) (split_on (CHR '','') s))
          else Inr []
      | _ \<Rightarrow> Inl AttributeError)"

text \<open>
  \<^verbatim>\<open>if not os.path.exists(self.output_path): os.makedirs(self.output_path)\<close>.
  \<^item> A string: the empty path never exists and \<^verbatim>\<open>os.makedirs('')\<close> raises
    \<^verbatim>\<open>FileNotFoundError\<close>; another path exists as a directory or as a file, or is created.
  \<^item> An integer or a boolean (which is an integer): \<^verbatim>\<open>os.path.exists\<close> takes it for a file
    descriptor; when it answers \<open>False\<close>, \<^verbatim>\<open>os.makedirs\<close> raises \<^verbatim>\<open>TypeError\<close>.
  \<^item> Any other value (\<open>None\<close> when neither the command line nor the file gives a
    path): \<^verbatim>\<open>os.path.exists\<close> raises \<^verbatim>\<open>TypeError\<close>.
\<close>

definition make_output_path :: "world \<Rightarrow> pyval \<Rightarrow> fsys \<Rightarrow> error + fsys" where
  "make_output_path W out fs =
     (case out of
        PStr p \<Rightarrow>
          if p = [] then Inl FileNotFoundError
          else if p \<in> dirs fs \<or> files fs p \<noteq> None then Inr fs
          else Inr (mkdir p fs)
      | PInt n \<Rightarrow>
          (case exists_fd W n of
             Inl e \<Rightarrow> Inl e
           | Inr found \<Rightarrow> if found then Inr fs else Inl TypeError)
      | PBool b \<Rightarrow>
          (case exists_fd W (if b then 1 else 0) of
             Inl e \<Rightarrow> Inl e
           | Inr found \<Rightarrow> if found then Inr fs else Inl TypeError)
      | _ \<Rightarrow> Inl TypeError)"

text \<open>\<^verbatim>\<open>Google.__init__\<close>: the six keyword arguments are read, the output directory is
  created when it does not exist, and the session is opened.\<close>

definition Google_init ::
  "world \<Rightarrow> (string \<rightharpoonup> pyval) \<Rightarrow> string list \<Rightarrow> fsys \<Rightarrow> fsys \<times> (error + google)" where
  "Google_init W kwargs apps fs =
     (case (kwargs ''creds_path'', kwargs ''delegated_creds'', kwargs ''output_path'',
            kwargs ''update'', kwargs ''overwrite'') of
        (Some creds, Some delegated, Some out, Some upd, Some ovw) \<Rightarrow>
          (case make_output_path W out fs of
             Inl e \<Rightarrow> (fs, Inl e)
           | Inr fs1 \<Rightarrow>
               (case google_session W creds delegated of
                  Inl e \<Rightarrow> (fs1, Inl e)
                | Inr svc \<Rightarrow>
                    (fs1, Inr \<lparr>SERVICE_ACCOUNT_FILE = creds, delegated_creds = delegated,
                               output_path = out, app_list = apps, update = upd,
                               overwrite = ovw, service = svc\<rparr>)))
      | _ \<Rightarrow> (fs, Inl KeyError))"

text \<open>\<^verbatim>\<open>datetime.datetime.strptime(x, fmt)\<close> on an attribute's value.\<close>

definition strptime_arg :: "pylib \<Rightarrow> pyval \<Rightarrow> error + int" where
  "strptime_arg L v =
     (case v of
        PStr s \<Rightarrow> (case strptime L s of None \<Rightarrow> Inl ValueError | Some t \<Rightarrow> Inr t)
      | _ \<Rightarrow> Inl TypeError)"

text \<open>The two branches after the \<^verbatim>\<open>Google\<close> object is built. Reading an attribute the
  namespace does not have raises \<^verbatim>\<open>AttributeError\<close>.\<close>

definition run_daily ::
  "pylib \<Rightarrow> google \<Rightarrow> (string \<rightharpoonup> pyval) \<Rightarrow> fsys \<Rightarrow> (fsys \<times> fetch list \<times> (error + unit)) option" where
  "run_daily L g args fs =
     (case (args ''start_time'', args ''end_time'') of
        (Some st, Some en) \<Rightarrow>
          (case strptime_arg L st of
             Inl e \<Rightarrow> Some (fs, [], Inl e)
           | Inr start_time \<Rightarrow>
               (case strptime_arg L en of
                  Inl e \<Rightarrow> Some (fs, [], Inl e)
                | Inr end_time \<Rightarrow>
                    (case daily_loop L g start_time end_time fs of
                       None \<Rightarrow> None
                     | Some (fs1, windows, calls, r) \<Rightarrow> Some (fs1, calls, r))))
      | _ \<Rightarrow> Some (fs, [], Inl AttributeError))"

definition run_once ::
  "pylib \<Rightarrow> google \<Rightarrow> (string \<rightharpoonup> pyval) \<Rightarrow> fsys \<Rightarrow> (fsys \<times> fetch list \<times> (error + unit)) option" where
  "run_once L g args fs =
     (case args ''from_date'' of
        None \<Rightarrow> Some (fs, [], Inl AttributeError)
      | Some from_date \<Rightarrow>
          (case get_logs L g from_date PNone fs of
             None \<Rightarrow> None
           | Some (fs1, calls, Inl e) \<Rightarrow> Some (fs1, calls, Inl e)
           | Some (fs1, calls, Inr totals) \<Rightarrow> Some (fs1, calls, Inr ())))"

text \<open>The program from \<^verbatim>\<open>parse_args\<close> on. The result is \<open>None\<close> when a fetch never
  returns; otherwise the file system left behind, the fetches made, and the exception that
  ended the run, if any.\<close>

definition main ::
  "pylib \<Rightarrow> world \<Rightarrow> cli \<Rightarrow> fsys \<Rightarrow> (fsys \<times> fetch list \<times> (error + unit)) option" where
  "main L W c fs =
     (let args = load_config W (parse_args c)
      in case args ''apps'' of
           None \<Rightarrow> Some (fs, [], Inl AttributeError)
         | Some a \<Rightarrow>
             (case convert_apps W a of
                Inl e \<Rightarrow> Some (fs, [], Inl e)
              | Inr apps \<Rightarrow>
                  (case Google_init W args apps fs of
                     (fs1, Inl e) \<Rightarrow> Some (fs1, [], Inl e)
                   | (fs1, Inr g) \<Rightarrow>
                       (case args ''daily'' of
                          None \<Rightarrow> Some (fs1, [], Inl AttributeError)
                        | Some d \<Rightarrow>
                            if truthy d then run_daily L g args fs1
                            else run_once L g args fs1))))"

section \<open>A sample environment\<close>

text \<open>
  Concrete stand-ins for the library functions, the remote service and the files, on
  which the definitions above can be run. A sample record holds nothing but its
  \<open>id.time\<close>; the sample codec writes it as that text, reads \<^verbatim>\<open>{}\<close> as an empty object
  and fails on an empty line. The sample date parser knows three timestamps with the
  offset of UTC, \<open>T1\<close> to \<open>T3\<close>, and one without offset, \<open>N2\<close>.
\<close>

definition sample_record :: "string \<Rightarrow> pyval" where
  "sample_record t = PDict [(''id'', PDict [(''time'', PStr t)])]"

fun sample_dumps :: "pyval \<Rightarrow> string" where
  "sample_dumps (PDict [(k, PDict [(k', PStr t)])]) = t"
| "sample_dumps v = ''null''"

definition sample_loads :: "string \<Rightarrow> pyval option" where
  "sample_loads line =
     (let s = takeWhile (\<lambda>c. c \<noteq> CHR 0x0A) line
      in if s = [] then None
         else if s = ''{}'' then Some (PDict [])
         else Some (sample_record s))"

definition sample_lib :: pylib where
  "sample_lib =
     \<lparr>json_loads = sample_loads,
      json_dumps = sample_dumps,
      dateparse = map_of [(''T1'', Datetime 1000000 (Some 0)), (''T2'', Datetime 2000000 (Some 0)),
                          (''T3'', Datetime 3000000 (Some 0)), (''N2'', Datetime 2000000 None)],
      datetime_str = (\<lambda>t. if instant t = 1000000 then ''D1'' else if instant t = 2000000 then ''D2''
                           else if instant t = 3000000 then ''D3'' else ''D''),
      py_str = (\<lambda>v. ''object''),
      strptime = map_of [(''S0'', 0), (''S1'', 86400000000)],
      strftime = (\<lambda>t. if t = 0 then ''S0'' else if t = 86400000000 then ''S1'' else ''S'')\<rparr>"

definition line :: "string \<Rightarrow> string" where
  "line s = s @ [CHR 0x0A]"

definition empty_fs :: fsys where
  "empty_fs = \<lparr>files = Map.empty, dirs = {}, truncations = (\<lambda>p. 0)\<rparr>"

text \<open>A file system with one log file of three records, the newest in the middle.\<close>

definition scanned_fs :: fsys where
  "scanned_fs = empty_fs\<lparr>files := [''log'' \<mapsto> line ''T1'' @ line ''T3'' @ line ''T2'']\<rparr>"

text \<open>A log file of two records, the first with an offset-aware timestamp and the second
  with an offset-naive one.\<close>

definition mixed_fs :: fsys where
  "mixed_fs = empty_fs\<lparr>files := [''log'' \<mapsto> line ''T1'' @ line ''N2'']\<rparr>"

text \<open>A log file whose second line is an object without \<open>id\<close>.\<close>

definition broken_fs :: fsys where
  "broken_fs = empty_fs\<lparr>files := [''log'' \<mapsto> line ''T1'' @ line ''{}'']\<rparr>"

text \<open>A service that answers every application with two pages, of two records and of
  one, except the application \<open>bad\<close>, for which the call raises \<^verbatim>\<open>TypeError\<close>.\<close>

definition page1 :: response where
  "page1 = \<lparr>items = Some [sample_record ''T1'', sample_record ''T2''],
            nextPageToken = Some ''p2''\<rparr>"

definition page2 :: response where
  "page2 = \<lparr>items = Some [sample_record ''T3''], nextPageToken = None\<rparr>"

definition sample_service :: service where
  "sample_service app tok st en =
     (if app = ''bad'' then Inl TypeError
      else (case tok of
              None \<Rightarrow> Inr page1
            | Some t \<Rightarrow> if t = ''p2'' then Inr page2 else Inl RemoteError))"

definition sample_google :: "string list \<Rightarrow> bool \<Rightarrow> bool \<Rightarrow> google" where
  "sample_google apps upd ovw =
     \<lparr>SERVICE_ACCOUNT_FILE = PStr ''creds.json'', delegated_creds = PStr ''admin'',
      output_path = PStr ''out'', app_list = apps, update = PBool upd,
      overwrite = PBool ovw, service = sample_service\<rparr>"

text \<open>A file system in which the output file holds one older record.\<close>

definition old_fs :: fsys where
  "old_fs = empty_fs\<lparr>files := [''log'' \<mapsto> line ''T0'']\<rparr>"

text \<open>A file system after an earlier run over the window from \<open>S0\<close> to \<open>S1\<close>: the file
  of the application \<open>a\<close> holds a record of time \<open>T3\<close>.\<close>

definition updated_fs :: fsys where
  "updated_fs = empty_fs\<lparr>files := [''out/S0_S1/a_logs.json'' \<mapsto> line ''T3''],
                         dirs := {''out'', ''out/S0_S1''}\<rparr>"

text \<open>Two configuration files, the second of which turns the daily split on, and a
  command line that names one application and nothing else.\<close>

definition plain_config :: "(string \<times> pyval) list" where
  "plain_config =
     [(''creds_path'', PStr ''creds.json''), (''delegated_creds'', PStr ''admin''),
      (''output_path'', PStr ''out''), (''apps'', PStr ''drive'')]"

definition daily_config :: "(string \<times> pyval) list" where
  "daily_config =
     [(''creds_path'', PStr ''creds.json''), (''delegated_creds'', PStr ''admin''),
      (''output_path'', PStr ''out''), (''daily'', PBool True),
      (''start_time'', PStr ''S0''), (''end_time'', PStr ''S1'')]"

definition sample_world :: world where
  "sample_world =
     \<lparr>config_file = map_of [(''config.json'', plain_config), (''daily.json'', daily_config)],
      application_list = Inr DEFAULT_APPLICATIONS,
      google_session = (\<lambda>creds delegated.
         if creds = PStr ''creds.json'' then Inr sample_service else Inl SetupError),
      exists_fd = (\<lambda>n. Inr False)\<rparr>"

definition plain_cli :: cli where
  "plain_cli =
     \<lparr>opt_config = None, opt_creds_path = None, opt_delegated_creds = None,
      opt_output_path = None, opt_apps = Some ''a'', opt_start_time = None,
      opt_end_time = None, opt_daily = False, opt_update = False, opt_overwrite = False,
      opt_log_level = None\<rparr>"

text \<open>A command line with no argument at all.\<close>

definition bare_cli :: cli where
  "bare_cli = plain_cli\<lparr>opt_apps := None\<rparr>"

definition daily_cli :: cli where
  "daily_cli = plain_cli\<lparr>opt_config := Some ''daily.json''\<rparr>"

section \<open>Properties of the scanner\<close>

lemma translate_newlines_nonempty: "content \<noteq> [] \<Longrightarrow> translate_newlines content \<noteq> []"
  by (cases content rule: translate_newlines.cases) auto

lemma split_lines_nonempty: "content \<noteq> [] \<Longrightarrow> split_lines content \<noteq> []"
  by (cases content) (auto split: list.splits)

lemma readlines_nonempty: "content \<noteq> [] \<Longrightarrow> readlines content \<noteq> []"
  by (simp add: readlines_def translate_newlines_nonempty split_lines_nonempty)

text \<open>The scan of lines that all parse to datetimes of one kind, all offset-naive or all
  offset-aware, from a datetime of that kind: it returns one of the datetimes met, of the
  greatest instant.\<close>

lemma scan_lines_from_some:
  "\<forall>l\<in>set ls. \<exists>d. line_datetime L l = Inr d \<and> (utcoffset d = None) = naive \<Longrightarrow>
   (utcoffset r = None) = naive \<Longrightarrow>
   \<exists>d. scan_lines L ls (Some r) = Inr (Some d) \<and>
       d \<in> insert r ((\<lambda>l. projr (line_datetime L l)) ` set ls) \<and>
       instant d = Max (instant ` insert r ((\<lambda>l. projr (line_datetime L l)) ` set ls))"
proof (induction ls arbitrary: r)
  case Nil
  then show ?case by simp
next
  case (Cons l ls)
  let ?f = "\<lambda>l. projr (line_datetime L l)"
  let ?I = "instant ` ?f ` set ls"
  from Cons.prems(1) obtain t where t: "line_datetime L l = Inr t"
    and kind: "(utcoffset t = None) = naive"
    by auto
  from Cons.prems(1) have rest:
    "\<forall>l\<in>set ls. \<exists>d. line_datetime L l = Inr d \<and> (utcoffset d = None) = naive" by simp
  have less: "datetime_less r t = Inr (instant r < instant t)"
    using kind Cons.prems(2) by (simp add: datetime_less_def)
  have fin: "finite ?I" by simp
  show ?case
  proof (cases "instant r < instant t")
    case True
    from Cons.IH [OF rest kind] obtain d where
      run: "scan_lines L ls (Some t) = Inr (Some d)"
      and mem: "d \<in> insert t (?f ` set ls)"
      and mx: "instant d = Max (instant ` insert t (?f ` set ls))"
      by blast
    have "Max (insert (instant r) (insert (instant t) ?I)) = max (instant r) (Max (insert (instant t) ?I))"
      by (rule Max_insert) (use fin in auto)
    also have "\<dots> = Max (insert (instant t) ?I)"
    proof -
      have "instant t \<le> Max (insert (instant t) ?I)" by (rule Max_ge) (use fin in auto)
      with True have "instant r \<le> Max (insert (instant t) ?I)" by linarith
      then show ?thesis by (rule max_absorb2)
    qed
    finally have "Max (instant ` insert r (?f ` set (l # ls))) = Max (instant ` insert t (?f ` set ls))"
      using t by simp
    with run mem mx True t less show ?thesis by auto
  next
    case False
    from Cons.IH [OF rest Cons.prems(2)] obtain d where
      run: "scan_lines L ls (Some r) = Inr (Some d)"
      and mem: "d \<in> insert r (?f ` set ls)"
      and mx: "instant d = Max (instant ` insert r (?f ` set ls))"
      by blast
    have "Max (insert (instant r) (insert (instant t) ?I)) = Max (insert (instant t) (insert (instant r) ?I))"
      by (simp add: insert_commute)
    also have "\<dots> = max (instant t) (Max (insert (instant r) ?I))"
      by (rule Max_insert) (use fin in auto)
    also have "\<dots> = Max (insert (instant r) ?I)"
    proof -
      have "instant r \<le> Max (insert (instant r) ?I)" by (rule Max_ge) (use fin in auto)
      with False have "instant t \<le> Max (insert (instant r) ?I)" by linarith
      then show ?thesis by (rule max_absorb2)
    qed
    finally have "Max (instant ` insert r (?f ` set (l # ls))) = Max (instant ` insert r (?f ` set ls))"
      using t by simp
    with run mem mx False t less show ?thesis by auto
  qed
qed

lemma scan_lines_from_none:
  assumes "ls \<noteq> []"
    and "\<forall>l\<in>set ls. \<exists>d. line_datetime L l = Inr d \<and> (utcoffset d = None) = naive"
  shows "\<exists>d. scan_lines L ls None = Inr (Some d) \<and>
       d \<in> (\<lambda>l. projr (line_datetime L l)) ` set ls \<and>
       instant d = Max (instant ` (\<lambda>l. projr (line_datetime L l)) ` set ls)"
proof (cases ls)
  case Nil
  with assms(1) show ?thesis by simp
next
  case (Cons l rest)
  with assms(2) obtain t where t: "line_datetime L l = Inr t"
    and kind: "(utcoffset t = None) = naive"
    by auto
  from assms(2) Cons have
    "\<forall>l\<in>set rest. \<exists>d. line_datetime L l = Inr d \<and> (utcoffset d = None) = naive" by simp
  from scan_lines_from_some [OF this kind] t Cons show ?thesis by simp
qed

lemma scan_lines_bad_line:
  "l \<in> set ls \<Longrightarrow> isl (line_datetime L l) \<Longrightarrow> isl (scan_lines L ls acc)"
proof (induction ls arbitrary: acc)
  case Nil
  then show ?case by simp
next
  case (Cons x xs)
  show ?case
  proof (cases "line_datetime L x")
    case (Inl e)
    then show ?thesis by simp
  next
    case (Inr t)
    with Cons.prems have mem: "l \<in> set xs" by auto
    have rest: "isl (scan_lines L xs acc')" for acc'
      by (rule Cons.IH [OF mem Cons.prems(2)])
    show ?thesis
    proof (cases acc)
      case None
      with Inr rest show ?thesis by simp
    next
      case (Some r)
      with Inr rest show ?thesis
        by (cases "datetime_less r t") simp_all
    qed
  qed
qed

lemma bad_line_raises:
  assumes "json_loads L l = None \<or> (\<exists>v. json_loads L l = Some v \<and> lacks_id_time v)"
  shows "isl (line_datetime L l)"
  using assms
proof
  assume "json_loads L l = None"
  then show ?thesis by (simp add: line_datetime_def)
next
  assume "\<exists>v. json_loads L l = Some v \<and> lacks_id_time v"
  then obtain v where v: "json_loads L l = Some v" and lacks: "lacks_id_time v" by blast
  show ?thesis
  proof (cases "subscript v ''id''")
    case (Inl e)
    with v show ?thesis by (simp add: line_datetime_def)
  next
    case (Inr idv)
    with lacks have "isl (subscript idv ''time'')" by (simp add: lacks_id_time_def)
    then obtain e where "subscript idv ''time'' = Inl e"
      by (cases "subscript idv ''time''") simp_all
    with v Inr show ?thesis by (simp add: line_datetime_def)
  qed
qed

lemma line_neq_Nil: "line s \<noteq> []"
  by (simp add: line_def)

lemma readlines_scanned:
  "readlines (line ''T1'' @ line ''T3'' @ line ''T2'') = [line ''T1'', line ''T3'', line ''T2'']"
  by (simp add: readlines_def line_def)

lemma readlines_mixed:
  "readlines (line ''T1'' @ line ''N2'') = [line ''T1'', line ''N2'']"
  by (simp add: readlines_def line_def)

lemma readlines_broken:
  "readlines (line ''T1'' @ line ''{}'') = [line ''T1'', line ''{}'']"
  by (simp add: readlines_def line_def)

lemma sample_line_datetime:
  "line_datetime sample_lib (line ''T1'') = Inr (Datetime 1000000 (Some 0))"
  "line_datetime sample_lib (line ''T2'') = Inr (Datetime 2000000 (Some 0))"
  "line_datetime sample_lib (line ''T3'') = Inr (Datetime 3000000 (Some 0))"
  "line_datetime sample_lib (line ''N2'') = Inr (Datetime 2000000 None)"
  by (simp_all add: line_datetime_def sample_lib_def sample_loads_def sample_record_def line_def)

lemma sample_loads_empty_object: "json_loads sample_lib (line ''{}'') = Some (PDict [])"
  by (simp add: sample_lib_def sample_loads_def line_def)

text \<open>
  C6. For an existing non-empty log file of which every line has a parseable \<open>id.time\<close>,
  the timestamps being all offset-aware or all offset-naive, \<open>_check_recent_date\<close> returns
  the maximum of the parsed timestamps of all lines: one of them, of the greatest instant.
  For a file that does not exist, and for an empty file, it returns \<open>None\<close>.
\<close>

theorem check_recent_date_returns_max:
  "(files fs p = None \<longrightarrow> check_recent_date L fs p = Inr None) \<and>
   (files fs p = Some [] \<longrightarrow> check_recent_date L fs p = Inr None) \<and>
   (\<forall>content naive. files fs p = Some content \<and> content \<noteq> [] \<and>
       (\<forall>l\<in>set (readlines content).
           \<exists>d. line_datetime L l = Inr d \<and> (utcoffset d = None) = naive) \<longrightarrow>
       (\<exists>d. check_recent_date L fs p = Inr (Some d) \<and>
            d \<in> (\<lambda>l. projr (line_datetime L l)) ` set (readlines content) \<and>
            instant d =
              Max (instant ` (\<lambda>l. projr (line_datetime L l)) ` set (readlines content))))"
proof (intro conjI impI allI)
  assume "files fs p = None"
  then show "check_recent_date L fs p = Inr None" by (simp add: check_recent_date_def)
next
  assume "files fs p = Some []"
  then show "check_recent_date L fs p = Inr None"
    by (simp add: check_recent_date_def readlines_def)
next
  fix content naive
  assume a: "files fs p = Some content \<and> content \<noteq> [] \<and>
       (\<forall>l\<in>set (readlines content).
           \<exists>d. line_datetime L l = Inr d \<and> (utcoffset d = None) = naive)"
  then have ne: "readlines content \<noteq> []" by (simp add: readlines_nonempty)
  from a have ok: "\<forall>l\<in>set (readlines content).
           \<exists>d. line_datetime L l = Inr d \<and> (utcoffset d = None) = naive" by blast
  from scan_lines_from_none [OF ne ok] a
  show "\<exists>d. check_recent_date L fs p = Inr (Some d) \<and>
            d \<in> (\<lambda>l. projr (line_datetime L l)) ` set (readlines content) \<and>
            instant d =
              Max (instant ` (\<lambda>l. projr (line_datetime L l)) ` set (readlines content))"
    by (simp add: check_recent_date_def)
qed

theorem check_recent_date_returns_max_witness:
  "files scanned_fs ''log'' = Some (line ''T1'' @ line ''T3'' @ line ''T2'') \<and>
   line ''T1'' @ line ''T3'' @ line ''T2'' \<noteq> [] \<and>
   readlines (line ''T1'' @ line ''T3'' @ line ''T2'') = [line ''T1'', line ''T3'', line ''T2''] \<and>
   line_datetime sample_lib (line ''T1'') = Inr (Datetime 1000000 (Some 0)) \<and>
   line_datetime sample_lib (line ''T3'') = Inr (Datetime 3000000 (Some 0)) \<and>
   line_datetime sample_lib (line ''T2'') = Inr (Datetime 2000000 (Some 0)) \<and>
   check_recent_date sample_lib scanned_fs ''log'' = Inr (Some (Datetime 3000000 (Some 0))) \<and>
   files empty_fs ''log'' = None \<and>
   check_recent_date sample_lib empty_fs ''log'' = Inr None"
proof -
  have f: "files scanned_fs ''log'' = Some (line ''T1'' @ line ''T3'' @ line ''T2'')"
    by (simp add: scanned_fs_def empty_fs_def)
  have ne: "line ''T1'' @ line ''T3'' @ line ''T2'' \<noteq> []" by (simp add: line_neq_Nil)
  have ok: "\<forall>l\<in>set (readlines (line ''T1'' @ line ''T3'' @ line ''T2'')).
      \<exists>d. line_datetime sample_lib l = Inr d \<and> (utcoffset d = None) = False"
    by (simp add: readlines_scanned sample_line_datetime)
  from check_recent_date_returns_max [of scanned_fs "''log''" sample_lib] f ne ok
  obtain d where run: "check_recent_date sample_lib scanned_fs ''log'' = Inr (Some d)"
    and mem: "d \<in> (\<lambda>l. projr (line_datetime sample_lib l)) `
                 set (readlines (line ''T1'' @ line ''T3'' @ line ''T2''))"
    and mx: "instant d = Max (instant ` (\<lambda>l. projr (line_datetime sample_lib l)) `
                 set (readlines (line ''T1'' @ line ''T3'' @ line ''T2'')))"
    by blast
  from mx have "instant d = 3000000" by (simp add: readlines_scanned sample_line_datetime)
  with mem have "d = Datetime 3000000 (Some 0)"
    by (auto simp: readlines_scanned sample_line_datetime)
  with run have r: "check_recent_date sample_lib scanned_fs ''log'' = Inr (Some (Datetime 3000000 (Some 0)))"
    by simp
  have e: "files empty_fs ''log'' = None" by (simp add: empty_fs_def)
  with check_recent_date_returns_max [of empty_fs "''log''" sample_lib]
  have "check_recent_date sample_lib empty_fs ''log'' = Inr None" by blast
  with f ne r e show ?thesis by (simp add: readlines_scanned sample_line_datetime)
qed

text \<open>C6, as the specification has it, asks nothing of the timestamps but that they parse.
  A file whose two lines parse, the first to an offset-aware and the second to an
  offset-naive datetime, makes the comparison, and with it the scanner, raise
  \<open>TypeError\<close>.\<close>

theorem check_recent_date_mixed_offsets_raise:
  "files mixed_fs ''log'' = Some (line ''T1'' @ line ''N2'') \<and>
   readlines (line ''T1'' @ line ''N2'') = [line ''T1'', line ''N2''] \<and>
   line_datetime sample_lib (line ''T1'') = Inr (Datetime 1000000 (Some 0)) \<and>
   line_datetime sample_lib (line ''N2'') = Inr (Datetime 2000000 None) \<and>
   check_recent_date sample_lib mixed_fs ''log'' = Inl TypeError"
  by (simp add: mixed_fs_def empty_fs_def check_recent_date_def readlines_mixed
        sample_line_datetime datetime_less_def)

text \<open>
  C10. \<open>_check_recent_date\<close> returns only if every line of an existing file is valid JSON
  with a parseable \<open>id.time\<close>: whenever some line of the file is not valid JSON, or is a
  JSON value without \<open>id.time\<close>, the scanner ends with an exception, which nothing in it
  catches, instead of returning a timestamp or \<open>None\<close>.
\<close>

theorem check_recent_date_raises_on_bad_line:
  assumes "files fs p = Some content"
    and "l \<in> set (readlines content)"
    and "json_loads L l = None \<or> (\<exists>v. json_loads L l = Some v \<and> lacks_id_time v)"
  shows "\<exists>e. check_recent_date L fs p = Inl e"
proof -
  from assms(3) have "isl (line_datetime L l)" by (rule bad_line_raises)
  with assms(2) have "isl (scan_lines L (readlines content) None)"
    by (rule scan_lines_bad_line)
  with assms(1) show ?thesis
    by (cases "scan_lines L (readlines content) None") (simp_all add: check_recent_date_def)
qed

theorem check_recent_date_raises_on_bad_line_witness:
  "files broken_fs ''log'' = Some (line ''T1'' @ line ''{}'') \<and>
   line ''{}'' \<in> set (readlines (line ''T1'' @ line ''{}'')) \<and>
   json_loads sample_lib (line ''{}'') = Some (PDict []) \<and>
   lacks_id_time (PDict []) \<and>
   (\<exists>e. check_recent_date sample_lib broken_fs ''log'' = Inl e)"
proof -
  have f: "files broken_fs ''log'' = Some (line ''T1'' @ line ''{}'')"
    by (simp add: broken_fs_def empty_fs_def)
  have m: "line ''{}'' \<in> set (readlines (line ''T1'' @ line ''{}''))"
    by (simp add: readlines_broken)
  have b: "lacks_id_time (PDict [])"
    by (simp add: lacks_id_time_def)
  from check_recent_date_raises_on_bad_line [OF f m, of sample_lib] b sample_loads_empty_object
  have "\<exists>e. check_recent_date sample_lib broken_fs ''log'' = Inl e" by simp
  with f m b sample_loads_empty_object show ?thesis by simp
qed

section \<open>Properties of the paginator and the writer\<close>

lemma write_entries_eq:
  "write_entries L p es oc fs =
     (oc + length es,
      if es = [] then fs
      else fs\<lparr>files := (files fs)(p \<mapsto> file_text fs p @
                concat (map (\<lambda>entry. json_dumps L entry @ [CHR 0x0A]) es))\<rparr>)"
proof (induction es arbitrary: oc fs)
  case Nil
  then show ?case by simp
next
  case (Cons e es)
  show ?case
    by (cases "files fs p")
       (simp_all add: Cons.IH write_text_def file_text_def)
qed

lemma write_page_append:
  "\<not> truthy ow \<Longrightarrow>
   write_page L p ow acts oc tr fs =
     (if acts = [] then (oc, tr, fs)
      else (oc + length acts, tr + length acts,
            fs\<lparr>files := (files fs)(p \<mapsto> file_text fs p @ page_text L acts)\<rparr>))"
  by (cases "files fs p")
     (simp_all add: write_page_def write_entries_eq page_text_def file_text_def)

lemma write_page_overwrite:
  "truthy ow \<Longrightarrow>
   write_page L p ow acts oc tr fs =
     (if acts = [] then (oc, tr, fs)
      else (oc + length acts, tr + length acts,
            fs\<lparr>files := (files fs)(p \<mapsto> page_text L acts),
               truncations := (truncations fs)(p := Suc (truncations fs p))\<rparr>))"
  by (simp add: write_page_def write_entries_eq page_text_def file_text_def)

text \<open>In append mode a paginated response sequence is written out in full: the run
  returns, the file is its former text followed by every page's records, each page
  reversed, and nothing else changes.\<close>

lemma activity_loop_append:
  "serves svc app st en tok rs \<Longrightarrow> \<not> truthy ow \<Longrightarrow>
   \<exists>fs'. activity_loop L svc app p ow st en tok oc tr fs =
            Some (fs', Inr (CInt (oc + records_of rs), CInt (tr + records_of rs))) \<and>
          file_text fs' p = file_text fs p @ concat (map (\<lambda>r. page_text L (activities_of r)) rs) \<and>
          (\<forall>q. q \<noteq> p \<longrightarrow> files fs' q = files fs q) \<and>
          dirs fs' = dirs fs \<and> truncations fs' = truncations fs"
proof (induction svc app st en tok rs arbitrary: oc tr fs rule: serves.induct)
  case (1 svc app st en tok)
  then show ?case by simp
next
  case (2 svc app st en tok r)
  then show ?case
    by (subst activity_loop.simps)
       (auto simp: write_page_append records_of_def file_text_def page_text_def)
next
  case (3 svc app st en tok r r' rs)
  then obtain t where r: "svc app tok st en = Inr r" and t: "nextPageToken r = Some t" "t \<noteq> []"
    and rest: "serves svc app st en (Some t) (r' # rs)"
    by (auto split: option.splits)
  obtain oc1 tr1 fs1 where wp: "write_page L p ow (activities_of r) oc tr fs = (oc1, tr1, fs1)"
    by (cases "write_page L p ow (activities_of r) oc tr fs") auto
  from wp "3.prems"(2) have oc1: "oc1 = oc + length (activities_of r)"
    and tr1: "tr1 = tr + length (activities_of r)"
    and ft1: "file_text fs1 p = file_text fs p @ page_text L (activities_of r)"
    and fr1: "\<forall>q. q \<noteq> p \<longrightarrow> files fs1 q = files fs q"
    and d1: "dirs fs1 = dirs fs" "truncations fs1 = truncations fs"
    by (auto simp: write_page_append file_text_def page_text_def split: if_splits)
  from "3.IH" [OF t(1) rest "3.prems"(2), of oc1 tr1 fs1]
  obtain fs' where
    run: "activity_loop L svc app p ow st en (Some t) oc1 tr1 fs1 =
            Some (fs', Inr (CInt (oc1 + records_of (r' # rs)), CInt (tr1 + records_of (r' # rs))))"
    and ft: "file_text fs' p = file_text fs1 p @ concat (map (\<lambda>r. page_text L (activities_of r)) (r' # rs))"
    and fr: "\<forall>q. q \<noteq> p \<longrightarrow> files fs' q = files fs1 q"
    and d: "dirs fs' = dirs fs1" "truncations fs' = truncations fs1"
    by blast
  have "activity_loop L svc app p ow st en tok oc tr fs =
          activity_loop L svc app p ow st en (Some t) oc1 tr1 fs1"
    by (subst activity_loop.simps) (simp add: r t wp)
  with run ft fr d oc1 tr1 ft1 fr1 d1 show ?case
    by (auto simp: records_of_def)
qed

lemma sample_serves: "app \<noteq> ''bad'' \<Longrightarrow> serves sample_service app st en None [page1, page2]"
  by (simp add: sample_service_def page1_def page2_def)

lemma sample_pages_text:
  "page_text sample_lib (activities_of page1) = line ''T2'' @ line ''T1''"
  "page_text sample_lib (activities_of page2) = line ''T3''"
  by (simp_all add: page_text_def activities_of_def page1_def page2_def sample_lib_def
        sample_record_def line_def)

lemma sample_pages_length:
  "length (activities_of page1) = 2" "length (activities_of page2) = 1"
  "activities_of page1 \<noteq> []" "activities_of page2 \<noteq> []"
  "nextPageToken page1 = Some ''p2''" "nextPageToken page2 = None"
  by (simp_all add: activities_of_def page1_def page2_def)

lemma overwrite_run:
  "app \<noteq> ''bad'' \<Longrightarrow>
   get_activity_logs sample_lib sample_service app p (PBool True) st en fs =
     Some (fs\<lparr>files := (files fs)(p \<mapsto> line ''T3''),
              truncations := (truncations fs)(p := Suc (Suc (truncations fs p)))\<rparr>,
           Inr (CInt 3, CInt 3))"
  unfolding get_activity_logs_def
  apply (subst activity_loop.simps)
  apply (simp add: sample_service_def write_page_overwrite sample_pages_length)
  apply (subst activity_loop.simps)
  apply (simp add: sample_service_def write_page_overwrite sample_pages_length sample_pages_text)
  done

lemma append_run:
  "app \<noteq> ''bad'' \<Longrightarrow>
   get_activity_logs sample_lib sample_service app p (PBool False) st en fs =
     Some (fs\<lparr>files := (files fs)(p \<mapsto> file_text fs p @ line ''T2'' @ line ''T1'' @ line ''T3'')\<rparr>,
           Inr (CInt 3, CInt 3))"
  unfolding get_activity_logs_def
  apply (subst activity_loop.simps)
  apply (simp add: sample_service_def write_page_append sample_pages_length)
  apply (subst activity_loop.simps)
  apply (simp add: sample_service_def write_page_append sample_pages_length sample_pages_text
      file_text_def)
  done

text \<open>
  C1. For every paginated response sequence, in append mode or in overwrite mode, the
  output file holds after \<open>_get_activity_logs\<close> exactly the records of all pages, each
  page's records in reverse order. In overwrite mode the code does not do this: on the
  sample service's two pages it returns the counts \<open>(3, 3)\<close> and leaves only the last
  page in the file.
\<close>

theorem overwrite_keeps_last_page_only:
  "serves sample_service ''a'' PNone PNone None [page1, page2] \<and>
   map_option (\<lambda>(fs', r). (files fs' ''log'', r))
     (get_activity_logs sample_lib sample_service ''a'' ''log'' (PBool True) PNone PNone empty_fs)
     = Some (Some (line ''T3''), Inr (CInt 3, CInt 3)) \<and>
   page_text sample_lib (activities_of page1) @ page_text sample_lib (activities_of page2)
     = line ''T2'' @ line ''T1'' @ line ''T3'' \<and>
   line ''T3'' \<noteq> line ''T2'' @ line ''T1'' @ line ''T3''"
proof (intro conjI)
  show "serves sample_service ''a'' PNone PNone None [page1, page2]"
    by (rule sample_serves) simp
  show "map_option (\<lambda>(fs', r). (files fs' ''log'', r))
     (get_activity_logs sample_lib sample_service ''a'' ''log'' (PBool True) PNone PNone empty_fs)
     = Some (Some (line ''T3''), Inr (CInt 3, CInt 3))"
    by (simp add: overwrite_run)
  show "page_text sample_lib (activities_of page1) @ page_text sample_lib (activities_of page2)
     = line ''T2'' @ line ''T1'' @ line ''T3''"
    by (simp add: sample_pages_text)
  show "line ''T3'' \<noteq> line ''T2'' @ line ''T1'' @ line ''T3''"
    by (simp add: line_def)
qed

text \<open>
  C3. In overwrite mode the output file is truncated exactly once, before the first page
  is written; in append mode what the file held before the fetch is still its prefix
  afterwards. The code truncates once for every page that has records: on the sample
  service's two pages the file is truncated twice, and the first page's records are lost
  with the old text.
\<close>

theorem overwrite_truncates_per_page:
  "file_text old_fs ''log'' = line ''T0'' \<and>
   truncations old_fs ''log'' = 0 \<and>
   map_option (\<lambda>(fs', r). (file_text fs' ''log'', truncations fs' ''log''))
     (get_activity_logs sample_lib sample_service ''a'' ''log'' (PBool True) PNone PNone old_fs)
     = Some (line ''T3'', 2)"
  by (simp add: overwrite_run old_fs_def empty_fs_def file_text_def)

text \<open>The call \<open>get_logs\<close> records for an application.\<close>

lemma get_logs_loop_step:
  assumes "effective_start L g (ensure_folder (log_folder L g fd td) fs0)
             (log_file L g fd td app) fd = Inr fd'"
    and "get_activity_logs L (service g) app (log_file L g fd td app) (overwrite g) fd' td
           (ensure_folder (log_folder L g fd td) fs0) = Some (fs2, Inr (saved, found))"
  shows "get_logs_loop L g (app # apps) fd td ts tf fs0 =
           (case get_logs_loop L g apps fd' td (ts + count_int saved) (tf + count_int found) fs2 of
              None \<Rightarrow> None
            | Some (fs3, calls, r) \<Rightarrow>
                Some (fs3, \<lparr>fetch_app = app, fetch_file = log_file L g fd td app,
                             fetch_start = fd', fetch_end = td\<rparr> # calls, r))"
  using assms by (simp add: Let_def)

text \<open>
  C4. When the remote list call raises \<open>TypeError\<close>, \<open>_get_activity_logs\<close> catches it:
  it returns the pair \<open>(False, False)\<close> instead of propagating, which \<open>get_logs\<close> adds to
  its totals as zero saved and zero found, and \<open>get_logs\<close> goes on with the next
  application of the list.
\<close>

theorem type_error_caught_and_run_continues:
  "(svc app tok st en = Inl TypeError \<longrightarrow>
      activity_loop L svc app out ow st en tok oc tr fs =
        Some (fs, Inr (CBool False, CBool False))) \<and>
   count_int (CBool False) = 0 \<and>
   (effective_start L g (ensure_folder (log_folder L g fd td) fs0)
        (log_file L g fd td app) fd = Inr fd' \<and>
    service g app None fd' td = Inl TypeError \<longrightarrow>
      get_logs_loop L g (app # apps) fd td ts tf fs0 =
        (case get_logs_loop L g apps fd' td ts tf
                (ensure_folder (log_folder L g fd td) fs0) of
           None \<Rightarrow> None
         | Some (fs3, calls, r) \<Rightarrow>
             Some (fs3, \<lparr>fetch_app = app, fetch_file = log_file L g fd td app,
                          fetch_start = fd', fetch_end = td\<rparr> # calls, r)))"
proof (intro conjI impI)
  assume "svc app tok st en = Inl TypeError"
  then show "activity_loop L svc app out ow st en tok oc tr fs =
        Some (fs, Inr (CBool False, CBool False))"
    by (subst activity_loop.simps) simp
next
  show "count_int (CBool False) = 0" by simp
next
  assume a: "effective_start L g (ensure_folder (log_folder L g fd td) fs0)
        (log_file L g fd td app) fd = Inr fd' \<and>
    service g app None fd' td = Inl TypeError"
  then have "get_activity_logs L (service g) app (log_file L g fd td app) (overwrite g) fd' td
           (ensure_folder (log_folder L g fd td) fs0) =
         Some (ensure_folder (log_folder L g fd td) fs0, Inr (CBool False, CBool False))"
    unfolding get_activity_logs_def by (subst activity_loop.simps) simp
  with a show "get_logs_loop L g (app # apps) fd td ts tf fs0 =
        (case get_logs_loop L g apps fd' td ts tf
                (ensure_folder (log_folder L g fd td) fs0) of
           None \<Rightarrow> None
         | Some (fs3, calls, r) \<Rightarrow>
             Some (fs3, \<lparr>fetch_app = app, fetch_file = log_file L g fd td app,
                          fetch_start = fd', fetch_end = td\<rparr> # calls, r))"
    by (simp add: Let_def)
qed

lemma sample_google_simps:
  "service (sample_google apps upd ovw) = sample_service"
  "update (sample_google apps upd ovw) = PBool upd"
  "overwrite (sample_google apps upd ovw) = PBool ovw"
  "app_list (sample_google apps upd ovw) = apps"
  "output_path (sample_google apps upd ovw) = PStr ''out''"
  by (simp_all add: sample_google_def)

lemma sample_folder:
  "log_folder sample_lib (sample_google apps upd ovw) (PStr ''S0'') (PStr ''S1'') = ''out/S0_S1''"
  "log_folder sample_lib (sample_google apps upd ovw) (PDate (Datetime 3000000 (Some 0))) (PStr ''S1'') = ''out/D3_S1''"
  by (simp_all add: log_folder_def sample_google_simps sample_lib_def)

lemma sample_file:
  "log_file sample_lib (sample_google apps upd ovw) (PStr ''S0'') (PStr ''S1'') app
     = ''out/S0_S1/'' @ app @ ''_logs.json''"
  "log_file sample_lib (sample_google apps upd ovw) (PDate (Datetime 3000000 (Some 0))) (PStr ''S1'') app
     = ''out/D3_S1/'' @ app @ ''_logs.json''"
  by (simp_all add: log_file_def sample_folder)

lemma bad_then_a:
  "map_option (\<lambda>(fs', calls, r). (map fetch_app calls, r))
     (get_logs_loop sample_lib (sample_google [''bad'', ''a''] False False) [''a'']
        (PStr ''S0'') (PStr ''S1'') 0 0 fs)
   = Some ([''a''], Inr (3, 3))"
  by (simp add: Let_def effective_start_def sample_google_simps append_run)

theorem type_error_caught_and_run_continues_witness:
  "sample_service ''bad'' None (PStr ''S0'') (PStr ''S1'') = Inl TypeError \<and>
   activity_loop sample_lib sample_service ''bad'' ''log'' (PBool False) (PStr ''S0'') (PStr ''S1'')
       None 0 0 empty_fs = Some (empty_fs, Inr (CBool False, CBool False)) \<and>
   effective_start sample_lib (sample_google [''bad'', ''a''] False False)
       (ensure_folder ''out/S0_S1'' empty_fs) ''out/S0_S1/bad_logs.json'' (PStr ''S0'')
     = Inr (PStr ''S0'') \<and>
   map_option (\<lambda>(fs', calls, r). (map fetch_app calls, r))
     (get_logs sample_lib (sample_google [''bad'', ''a''] False False)
        (PStr ''S0'') (PStr ''S1'') empty_fs)
     = Some ([''bad'', ''a''], Inr (3, 3))"
proof -
  let ?g = "sample_google [''bad'', ''a''] False False"
  have te: "sample_service ''bad'' None (PStr ''S0'') (PStr ''S1'') = Inl TypeError"
    by (simp add: sample_service_def)
  have eff: "effective_start sample_lib ?g (ensure_folder ''out/S0_S1'' empty_fs)
      ''out/S0_S1/bad_logs.json'' (PStr ''S0'') = Inr (PStr ''S0'')"
    by (simp add: effective_start_def sample_google_simps)
  note inst = type_error_caught_and_run_continues
    [of sample_service "''bad''" None "PStr ''S0''" "PStr ''S1''" sample_lib "''log''" "PBool False"
        0 0 empty_fs ?g "PStr ''S0''" "PStr ''S1''" empty_fs "PStr ''S0''" "[''a'']" 0 0]
  from inst te have run: "activity_loop sample_lib sample_service ''bad'' ''log'' (PBool False)
       (PStr ''S0'') (PStr ''S1'') None 0 0 empty_fs
     = Some (empty_fs, Inr (CBool False, CBool False))"
    by blast
  from inst te eff have step: "get_logs_loop sample_lib ?g [''bad'', ''a''] (PStr ''S0'') (PStr ''S1'') 0 0 empty_fs =
        (case get_logs_loop sample_lib ?g [''a''] (PStr ''S0'') (PStr ''S1'') 0 0
                (ensure_folder ''out/S0_S1'' empty_fs) of
           None \<Rightarrow> None
         | Some (fs3, calls, r) \<Rightarrow>
             Some (fs3, \<lparr>fetch_app = ''bad'',
                          fetch_file = log_file sample_lib ?g (PStr ''S0'') (PStr ''S1'') ''bad'',
                          fetch_start = PStr ''S0'', fetch_end = PStr ''S1''\<rparr> # calls, r))"
    by (simp add: sample_folder sample_file sample_google_simps del: get_logs_loop.simps)
  from bad_then_a [of "ensure_folder ''out/S0_S1'' empty_fs"]
  obtain fs3 calls where
    rest: "get_logs_loop sample_lib ?g [''a''] (PStr ''S0'') (PStr ''S1'') 0 0
                (ensure_folder ''out/S0_S1'' empty_fs) = Some (fs3, calls, Inr (3, 3))"
    and apps: "map fetch_app calls = [''a'']"
    by (auto simp: map_option_case split: option.splits)
  have "map_option (\<lambda>(fs', calls, r). (map fetch_app calls, r))
     (get_logs sample_lib ?g (PStr ''S0'') (PStr ''S1'') empty_fs)
     = Some ([''bad'', ''a''], Inr (3, 3))"
    unfolding get_logs_def sample_google_simps step rest by (simp add: apps)
  with te run eff show ?thesis by blast
qed

lemma readlines_line_T3: "readlines (line ''T3'') = [line ''T3'']"
  by (simp add: readlines_def line_def)

lemma line_datetime_T3:
  "line_datetime sample_lib (line ''T3'') = Inr (Datetime 3000000 (Some 0))"
  by (simp add: line_datetime_def sample_lib_def sample_loads_def sample_record_def line_def)

lemma updated_fs_scan:
  "check_recent_date sample_lib updated_fs ''out/S0_S1/a_logs.json''
     = Inr (Some (Datetime 3000000 (Some 0)))"
  by (simp add: check_recent_date_def updated_fs_def empty_fs_def readlines_line_T3
        line_datetime_T3)

lemma updated_fs_simps:
  "ensure_folder ''out/S0_S1'' updated_fs = updated_fs"
  "files updated_fs ''out/S0_S1/b_logs.json'' = None"
  "files updated_fs ''out/D3_S1/b_logs.json'' = None"
  by (simp_all add: ensure_folder_def updated_fs_def empty_fs_def)

lemma update_step_a:
  "effective_start sample_lib (sample_google apps True False)
     updated_fs ''out/S0_S1/a_logs.json'' (PStr ''S0'')
   = Inr (PDate (Datetime 3000000 (Some 0)))"
  by (simp add: effective_start_def recent_or_def sample_google_simps updated_fs_simps
        updated_fs_scan)

lemma update_step_b:
  "files fs ''out/D3_S1/b_logs.json'' = None \<Longrightarrow>
   effective_start sample_lib (sample_google apps True False)
     fs ''out/D3_S1/b_logs.json'' (PDate (Datetime 3000000 (Some 0)))
   = Inr (PDate (Datetime 3000000 (Some 0)))"
  by (simp add: effective_start_def recent_or_def sample_google_simps check_recent_date_def)

lemma update_run_calls:
  "map_option (\<lambda>(fs', calls, r). (calls, r))
     (get_logs sample_lib (sample_google [''a'', ''b''] True False)
        (PStr ''S0'') (PStr ''S1'') updated_fs)
   = Some ([\<lparr>fetch_app = ''a'', fetch_file = ''out/S0_S1/a_logs.json'',
              fetch_start = PDate (Datetime 3000000 (Some 0)), fetch_end = PStr ''S1''\<rparr>,
            \<lparr>fetch_app = ''b'', fetch_file = ''out/D3_S1/b_logs.json'',
              fetch_start = PDate (Datetime 3000000 (Some 0)), fetch_end = PStr ''S1''\<rparr>],
           Inr (6, 6))"
proof -
  let ?g = "sample_google [''a'', ''b''] True False"
  let ?fs2 = "updated_fs\<lparr>files := (files updated_fs)(''out/S0_S1/a_logs.json'' \<mapsto>
      file_text updated_fs ''out/S0_S1/a_logs.json'' @ line ''T2'' @ line ''T1'' @ line ''T3'')\<rparr>"
  have a: "get_logs_loop sample_lib ?g [''a'', ''b''] (PStr ''S0'') (PStr ''S1'') 0 0 updated_fs =
      (case get_logs_loop sample_lib ?g [''b''] (PDate (Datetime 3000000 (Some 0))) (PStr ''S1'') 3 3 ?fs2 of
         None \<Rightarrow> None
       | Some (fs3, calls, r) \<Rightarrow>
           Some (fs3, \<lparr>fetch_app = ''a'',
                        fetch_file = log_file sample_lib ?g (PStr ''S0'') (PStr ''S1'') ''a'',
                        fetch_start = PDate (Datetime 3000000 (Some 0)), fetch_end = PStr ''S1''\<rparr> # calls, r))"
    by (rule trans [OF get_logs_loop_step [where fd' = "PDate (Datetime 3000000 (Some 0))" and saved = "CInt 3"
            and found = "CInt 3" and ?fs2.0 = ?fs2]])
       (simp_all add: sample_folder sample_file sample_google_simps update_step_a
          updated_fs_simps append_run)
  let ?fs1b = "ensure_folder ''out/D3_S1'' ?fs2"
  let ?fs2b = "?fs1b\<lparr>files := (files ?fs1b)(''out/D3_S1/b_logs.json'' \<mapsto>
      file_text ?fs1b ''out/D3_S1/b_logs.json'' @ line ''T2'' @ line ''T1'' @ line ''T3'')\<rparr>"
  have nofile: "files ?fs1b ''out/D3_S1/b_logs.json'' = None"
    by (simp add: ensure_folder_def mkdir_def updated_fs_def empty_fs_def)
  have b: "get_logs_loop sample_lib ?g [''b''] (PDate (Datetime 3000000 (Some 0))) (PStr ''S1'') 3 3 ?fs2 =
      (case get_logs_loop sample_lib ?g [] (PDate (Datetime 3000000 (Some 0))) (PStr ''S1'') 6 6 ?fs2b of
         None \<Rightarrow> None
       | Some (fs3, calls, r) \<Rightarrow>
           Some (fs3, \<lparr>fetch_app = ''b'',
                        fetch_file = log_file sample_lib ?g (PDate (Datetime 3000000 (Some 0))) (PStr ''S1'') ''b'',
                        fetch_start = PDate (Datetime 3000000 (Some 0)), fetch_end = PStr ''S1''\<rparr> # calls, r))"
    by (rule trans [OF get_logs_loop_step [where fd' = "PDate (Datetime 3000000 (Some 0))" and saved = "CInt 3"
            and found = "CInt 3" and ?fs2.0 = ?fs2b]])
       (simp_all add: sample_folder sample_file sample_google_simps update_step_b [OF nofile]
          append_run)
  show ?thesis
    unfolding get_logs_def sample_google_simps a b
    by (simp add: sample_file)
qed

text \<open>Without update mode \<open>from_date\<close> is never reassigned: every fetch of a
  \<open>get_logs\<close> call gets the call's window and writes to the window's folder.\<close>

lemma get_logs_loop_without_update:
  "\<not> truthy (update g) \<Longrightarrow>
   get_logs_loop L g apps fd td ts tf fs = Some (fs', calls, r) \<Longrightarrow>
   c \<in> set calls \<Longrightarrow>
   fetch_file c = log_file L g fd td (fetch_app c) \<and> fetch_start c = fd \<and> fetch_end c = td"
proof (induction apps arbitrary: ts tf fs fs' calls r)
  case Nil
  then show ?case by simp
next
  case (Cons app apps)
  let ?fs1 = "ensure_folder (log_folder L g fd td) fs"
  let ?call = "\<lparr>fetch_app = app, fetch_file = log_file L g fd td app,
                 fetch_start = fd, fetch_end = td\<rparr>"
  from Cons.prems(1) have eff: "effective_start L g ?fs1 (log_file L g fd td app) fd = Inr fd"
    by (simp add: effective_start_def)
  show ?case
  proof (cases "get_activity_logs L (service g) app (log_file L g fd td app) (overwrite g) fd td ?fs1")
    case None
    with Cons.prems(2) eff show ?thesis by (simp add: Let_def)
  next
    case (Some res)
    obtain fs2 out where res: "res = (fs2, out)" by (cases res)
    show ?thesis
    proof (cases out)
      case (Inl e)
      with Cons.prems(2,3) eff Some res show ?thesis by (auto simp: Let_def)
    next
      case (Inr sf)
      obtain saved found where sf: "sf = (saved, found)" by (cases sf)
      from Cons.prems(2) eff Some res Inr sf obtain fs3 calls' where
        rest: "get_logs_loop L g apps fd td (ts + count_int saved) (tf + count_int found) fs2
                 = Some (fs3, calls', r)"
        and calls: "calls = ?call # calls'"
        by (auto simp: Let_def split: option.splits)
      from Cons.prems(3) calls have "c = ?call \<or> c \<in> set calls'" by auto
      then show ?thesis
      proof
        assume "c = ?call" then show ?thesis by simp
      next
        assume "c \<in> set calls'"
        with Cons.IH [OF Cons.prems(1) rest] show ?thesis .
      qed
    qed
  qed
qed

text \<open>
  C2. In update mode the start time passed to the fetch of each application of the list is
  the newest timestamp of that application's output file when the file is not empty, and
  the configured start time otherwise. The code assigns the effective start to
  \<open>from_date\<close> itself, so the next application falls back to it: with the window from
  \<open>S0\<close>, the file of \<open>a\<close> holding a record of time \<open>T3\<close> and no file for \<open>b\<close>, the
  fetch of \<open>b\<close> starts at the timestamp found for \<open>a\<close>, not at \<open>S0\<close>.
\<close>

theorem update_start_leaks_to_next_application:
  "files updated_fs ''out/S0_S1/b_logs.json'' = None \<and>
   files updated_fs ''out/D3_S1/b_logs.json'' = None \<and>
   map_option (\<lambda>(fs', calls, r). map (\<lambda>c. (fetch_app c, fetch_start c)) calls)
     (get_logs sample_lib (sample_google [''a'', ''b''] True False)
        (PStr ''S0'') (PStr ''S1'') updated_fs)
     = Some [(''a'', PDate (Datetime 3000000 (Some 0))), (''b'', PDate (Datetime 3000000 (Some 0)))] \<and>
   PDate (Datetime 3000000 (Some 0)) \<noteq> PStr ''S0''"
proof -
  from update_run_calls obtain fs' calls r where
    run: "get_logs sample_lib (sample_google [''a'', ''b''] True False)
        (PStr ''S0'') (PStr ''S1'') updated_fs = Some (fs', calls, r)"
    and calls: "calls = [\<lparr>fetch_app = ''a'', fetch_file = ''out/S0_S1/a_logs.json'',
              fetch_start = PDate (Datetime 3000000 (Some 0)), fetch_end = PStr ''S1''\<rparr>,
            \<lparr>fetch_app = ''b'', fetch_file = ''out/D3_S1/b_logs.json'',
              fetch_start = PDate (Datetime 3000000 (Some 0)), fetch_end = PStr ''S1''\<rparr>]"
    by (auto simp: map_option_case split: option.splits)
  show ?thesis by (simp add: run calls updated_fs_simps)
qed

text \<open>
  C7. The records of every application fetched by \<open>get_logs\<close> for the window
  \<open>(from_date, to_date)\<close> go to \<open>output_path/from_date_to_date/app_logs.json\<close>, with the
  window \<open>get_logs\<close> was called with. In update mode the code names the folder after the
  reassigned \<open>from_date\<close>: in the run above the records of \<open>b\<close> go to the folder of the
  timestamp found for \<open>a\<close>.
\<close>

theorem update_moves_next_application_folder:
  "map_option (\<lambda>(fs', calls, r). map (\<lambda>c. (fetch_app c, fetch_file c)) calls)
     (get_logs sample_lib (sample_google [''a'', ''b''] True False)
        (PStr ''S0'') (PStr ''S1'') updated_fs)
     = Some [(''a'', ''out/S0_S1/a_logs.json''), (''b'', ''out/D3_S1/b_logs.json'')] \<and>
   log_file sample_lib (sample_google [''a'', ''b''] True False) (PStr ''S0'') (PStr ''S1'') ''b''
     = ''out/S0_S1/b_logs.json'' \<and>
   ''out/D3_S1/b_logs.json'' \<noteq> ''out/S0_S1/b_logs.json''"
proof -
  from update_run_calls obtain fs' calls r where
    run: "get_logs sample_lib (sample_google [''a'', ''b''] True False)
        (PStr ''S0'') (PStr ''S1'') updated_fs = Some (fs', calls, r)"
    and calls: "calls = [\<lparr>fetch_app = ''a'', fetch_file = ''out/S0_S1/a_logs.json'',
              fetch_start = PDate (Datetime 3000000 (Some 0)), fetch_end = PStr ''S1''\<rparr>,
            \<lparr>fetch_app = ''b'', fetch_file = ''out/D3_S1/b_logs.json'',
              fetch_start = PDate (Datetime 3000000 (Some 0)), fetch_end = PStr ''S1''\<rparr>]"
    by (auto simp: map_option_case split: option.splits)
  show ?thesis by (simp add: run calls sample_file)
qed

section \<open>Properties of the configuration merge\<close>

lemma merge_config_other_key:
  "key \<notin> fst ` set config \<Longrightarrow> merge_config config args key = args key"
  by (induction config arbitrary: args) (auto split: option.splits)

lemma merge_config_item:
  "distinct (map fst config) \<Longrightarrow> (key, v) \<in> set config \<Longrightarrow>
   merge_config config args key =
     (case args key of
        None \<Rightarrow> Some v
      | Some a \<Rightarrow> if truthy a then Some a else Some v)"
proof (induction config arbitrary: args)
  case Nil
  then show ?case by simp
next
  case (Cons item config)
  obtain k w where item: "item = (k, w)" by (cases item)
  show ?case
  proof (cases "k = key")
    case True
    with Cons.prems item have w: "w = v" and fresh: "key \<notin> fst ` set config"
      by (auto simp: image_iff)
    from fresh have "merge_config config args' key = args' key" for args'
      by (rule merge_config_other_key)
    with True item w show ?thesis by (simp split: option.splits)
  next
    case False
    with Cons.prems item have "(key, v) \<in> set config" "distinct (map fst config)" by auto
    from Cons.IH [OF this(2) this(1)] False item show ?thesis
      by (simp split: option.splits)
  qed
qed

lemma merge_config_keeps_true:
  "args key = Some a \<Longrightarrow> truthy a \<Longrightarrow> merge_config config args key = Some a"
proof (induction config arbitrary: args)
  case Nil
  then show ?case by simp
next
  case (Cons item config)
  obtain k w where item: "item = (k, w)" by (cases item)
  let ?args' = "(case args k of None \<Rightarrow> args(k \<mapsto> w)
                 | Some b \<Rightarrow> if \<not> truthy b then args(k \<mapsto> w) else args)"
  from Cons.prems have "?args' key = Some a" by (auto split: option.splits)
  then have "merge_config config ?args' key = Some a"
    using Cons.prems(2) by (rule Cons.IH [where args = ?args'])
  with item show ?case by simp
qed

lemma load_config_eq: "load_config W (parse_args c) = merge_config (config_of W c) (parse_args c)"
  by (simp add: load_config_def config_of_def parse_args_def Let_def split: option.splits)

text \<open>What the merge loop does for a key of the configuration object: the file's value
  where the parsed namespace has no such attribute or a false one, the namespace's value
  otherwise.\<close>

lemma load_config_item:
  assumes "distinct (map fst (config_of W c))"
    and "(key, v) \<in> set (config_of W c)"
  shows "load_config W (parse_args c) key =
     (case parse_args c key of
        None \<Rightarrow> Some v
      | Some a \<Rightarrow> if truthy a then Some a else Some v)"
  using merge_config_item [OF assms] by (simp add: load_config_eq)

lemma join_default_applications:
  "join '','' DEFAULT_APPLICATIONS = ''chrome,admin,access_transparency,context_aware_access,gplus,data_studio,mobile,groups_enterprise,calendar,chat,gcp,drive,groups,keep,meet,jamboard,login,token,rules,saml,user_accounts''"
  by (simp add: DEFAULT_APPLICATIONS_def)

text \<open>An \<open>apps\<close> value of the configuration file is never used when \<open>--apps\<close> is not
  given: the parser's default for it is a non-empty string.\<close>

lemma default_apps_always_win:
  "opt_apps c = None \<Longrightarrow>
   load_config W (parse_args c) ''apps'' = Some (PStr (join '','' DEFAULT_APPLICATIONS))"
proof -
  assume "opt_apps c = None"
  then have "parse_args c ''apps'' = Some (PStr (join '','' DEFAULT_APPLICATIONS))"
    by (simp add: parse_args_def)
  moreover have "truthy (PStr (join '','' DEFAULT_APPLICATIONS))"
    by (simp add: join_default_applications)
  ultimately show ?thesis
    by (simp add: load_config_eq merge_config_keeps_true)
qed

lemma plain_config_of: "config_of sample_world plain_cli = plain_config"
  by (simp add: config_of_def sample_world_def plain_cli_def)

lemma bare_config_of: "config_of sample_world bare_cli = plain_config"
  by (simp add: config_of_def sample_world_def bare_cli_def plain_cli_def)

text \<open>
  C8. For every key of the configuration file, the merged value of the argument is the
  file's value when the command line did not set the flag, and the command line's value
  otherwise. The code tests the parsed value, not whether the flag was given: with no
  \<open>--apps\<close> on the command line and \<open>apps\<close> set to \<open>drive\<close> in the file, the merged
  value is the parser's default list of applications, not the file's value.
\<close>

theorem default_apps_beat_config_file:
  "opt_apps bare_cli = None \<and>
   (''apps'', PStr ''drive'') \<in> set (config_of sample_world bare_cli) \<and>
   parse_args bare_cli ''apps'' = Some (PStr (join '','' DEFAULT_APPLICATIONS)) \<and>
   load_config sample_world (parse_args bare_cli) ''apps''
     = Some (PStr (join '','' DEFAULT_APPLICATIONS)) \<and>
   PStr (join '','' DEFAULT_APPLICATIONS) \<noteq> PStr ''drive''"
proof (intro conjI)
  show n: "opt_apps bare_cli = None" by (simp add: bare_cli_def plain_cli_def)
  show "(''apps'', PStr ''drive'') \<in> set (config_of sample_world bare_cli)"
    by (simp add: bare_config_of plain_config_def)
  from n show "parse_args bare_cli ''apps'' = Some (PStr (join '','' DEFAULT_APPLICATIONS))"
    by (simp add: parse_args_def)
  from n show "load_config sample_world (parse_args bare_cli) ''apps''
     = Some (PStr (join '','' DEFAULT_APPLICATIONS))"
    by (rule default_apps_always_win)
  show "PStr (join '','' DEFAULT_APPLICATIONS) \<noteq> PStr ''drive''"
    by (simp add: join_default_applications)
qed

section \<open>Properties of the day splitter\<close>










text \<open>One iteration of the loop whose \<open>get_logs\<close> call returns and whose next day is a
  datetime, and the end of the loop.\<close>

lemma daily_loop_step:
  assumes "start_time < end_time"
    and "get_logs L g (PStr (strftime L start_time))
           (PStr (strftime L (min (get_end_of_the_day start_time) end_time))) fs
         = Some (fs1, calls, Inr totals)"
    and "start_time + DAY < DATETIME_END"
  shows "daily_loop L g start_time end_time fs =
     (case daily_loop L g (next_day start_time) end_time fs1 of
        None \<Rightarrow> None
      | Some (fs2, windows, calls', r) \<Rightarrow>
          Some (fs2, (start_time, min (get_end_of_the_day start_time) end_time) # windows,
                calls @ calls', r))"
proof -
  have m: "(if get_end_of_the_day start_time > end_time then end_time
            else get_end_of_the_day start_time) = min (get_end_of_the_day start_time) end_time"
    by (simp add: min_def)
  have no: "\<not> DATETIME_END \<le> start_time + DAY" using assms(3) by simp
  show ?thesis
    by (subst daily_loop.simps) (simp only: m Let_def assms if_True, simp add: assms no)
qed

lemma daily_loop_done:
  "\<not> start_time < end_time \<Longrightarrow> daily_loop L g start_time end_time fs = Some (fs, [], [], Inr ())"
  by (subst daily_loop.simps) simp

text \<open>On the last day of the calendar the loop fetches the window and then ends with
  \<open>OverflowError\<close>.\<close>

lemma daily_loop_last_day:
  assumes "start_time < end_time"
    and "get_logs L g (PStr (strftime L start_time))
           (PStr (strftime L (min (get_end_of_the_day start_time) end_time))) fs
         = Some (fs1, calls, Inr totals)"
    and "DATETIME_END \<le> start_time + DAY"
  shows "daily_loop L g start_time end_time fs =
     Some (fs1, [(start_time, min (get_end_of_the_day start_time) end_time)], calls,
           Inl OverflowError)"
proof -
  have m: "(if get_end_of_the_day start_time > end_time then end_time
            else get_end_of_the_day start_time) = min (get_end_of_the_day start_time) end_time"
    by (simp add: min_def)
  show ?thesis
    by (subst daily_loop.simps) (simp only: m Let_def assms if_True, simp add: assms)
qed

text \<open>A \<open>get_logs\<close> call that raises ends the loop: no further window is fetched.\<close>

lemma daily_loop_first_exception:
  assumes "start_time < end_time"
    and "get_logs L g (PStr (strftime L start_time))
           (PStr (strftime L (min (get_end_of_the_day start_time) end_time))) fs
         = Some (fs1, calls, Inl e)"
  shows "daily_loop L g start_time end_time fs =
     Some (fs1, [(start_time, min (get_end_of_the_day start_time) end_time)], calls, Inl e)"
proof -
  have m: "(if get_end_of_the_day start_time > end_time then end_time
            else get_end_of_the_day start_time) = min (get_end_of_the_day start_time) end_time"
    by (simp add: min_def)
  show ?thesis
    by (subst daily_loop.simps) (simp only: m Let_def assms if_True, simp add: assms)
qed


lemma one_app_run:
  "app \<noteq> ''bad'' \<Longrightarrow>
   \<exists>fs' call. get_logs sample_lib (sample_google [app] False False) fd td fs
                  = Some (fs', [call], Inr (3, 3)) \<and> fetch_app call = app"
  by (simp add: get_logs_def sample_google_simps Let_def effective_start_def append_run)


lemma sample_days:
  "next_day 0 = 86400000000" "next_day 86400000000 = 172800000000"
  "get_end_of_the_day 0 = 86399999999" "get_end_of_the_day 86400000000 = 172799999999"
  "get_end_of_the_day 172800000000 = 259199999999"
  by (simp_all add: next_day_def get_start_of_the_day_def get_end_of_the_day_def DAY_def)





section \<open>Properties of the main program\<close>

lemma merge_config_stays_false:
  "(\<forall>a. args key = Some a \<longrightarrow> \<not> truthy a) \<Longrightarrow>
   (\<forall>v. (key, v) \<in> set config \<longrightarrow> \<not> truthy v) \<Longrightarrow>
   merge_config config args key = Some d \<Longrightarrow> \<not> truthy d"
proof (induction config arbitrary: args)
  case Nil
  then show ?case by simp
next
  case (Cons item config)
  obtain k w where item: "item = (k, w)" by (cases item)
  let ?args' = "(case args k of None \<Rightarrow> args(k \<mapsto> w)
                 | Some a \<Rightarrow> if \<not> truthy a then args(k \<mapsto> w) else args)"
  have step: "\<forall>a. ?args' key = Some a \<longrightarrow> \<not> truthy a"
    using Cons.prems(1,2) item by (auto split: option.splits if_splits)
  have rest: "\<forall>v. (key, v) \<in> set config \<longrightarrow> \<not> truthy v"
    using Cons.prems(2) by simp
  from Cons.prems(3) item have "merge_config config ?args' key = Some d" by simp
  from Cons.IH [OF step rest this] show ?case .
qed

lemma parse_args_keys:
  "parse_args c ''from_date'' = None"
  "parse_args c ''daily'' = Some (PBool (opt_daily c))"
  by (simp_all add: parse_args_def)

lemma make_output_path_files: "make_output_path W out fs = Inr fs1 \<Longrightarrow> files fs1 = files fs"
  by (cases out) (auto simp: make_output_path_def mkdir_def split: sum.splits if_splits)

lemma Google_init_files: "Google_init W kwargs apps fs = (fs1, r) \<Longrightarrow> files fs1 = files fs"
  by (auto simp: Google_init_def split: option.splits sum.splits dest: make_output_path_files)

text \<open>
  C9. When the daily split is not in effect (no \<open>--daily\<close> on the command line and no true
  \<open>daily\<close> value in the configuration file), the program reaches a fetch only if the
  configuration file supplies \<open>from_date\<close>, which the parser does not define: without
  it the run ends with an exception before any fetch and with every file as it was, and
  the exception is the \<open>AttributeError\<close> of reading \<open>args.from_date\<close> whenever the
  conversion of the application list and the construction of the \<open>Google\<close> object
  succeed.
\<close>

theorem non_daily_run_needs_from_date:
  assumes "\<not> opt_daily c"
    and "\<forall>v. (''daily'', v) \<in> set (config_of W c) \<longrightarrow> \<not> truthy v"
    and "''from_date'' \<notin> fst ` set (config_of W c)"
  shows "(\<exists>fs' e. main L W c fs = Some (fs', [], Inl e) \<and> files fs' = files fs) \<and>
         (\<forall>a apps fs1 g.
            load_config W (parse_args c) ''apps'' = Some a \<and>
            convert_apps W a = Inr apps \<and>
            Google_init W (load_config W (parse_args c)) apps fs = (fs1, Inr g) \<longrightarrow>
            main L W c fs = Some (fs1, [], Inl AttributeError))"
proof -
  let ?args = "load_config W (parse_args c)"
  have nofd: "?args ''from_date'' = None"
    using merge_config_other_key [OF assms(3), of "parse_args c"]
    by (simp add: load_config_eq parse_args_keys)
  have nodaily: "?args ''daily'' = Some d \<Longrightarrow> \<not> truthy d" for d
  proof -
    assume m: "?args ''daily'' = Some d"
    have p: "\<forall>a. parse_args c ''daily'' = Some a \<longrightarrow> \<not> truthy a"
      using assms(1) by (simp add: parse_args_keys)
    from m have "merge_config (config_of W c) (parse_args c) ''daily'' = Some d"
      by (simp add: load_config_eq)
    with p assms(2) show ?thesis
      by (rule merge_config_stays_false [where args = "parse_args c" and key = "''daily''"
            and config = "config_of W c"])
  qed
  have once: "run_once L g ?args fs1 = Some (fs1, [], Inl AttributeError)" for g fs1
    by (simp add: run_once_def nofd)
  have branch: "(case ?args ''daily'' of
                   None \<Rightarrow> Some (fs1, [], Inl AttributeError)
                 | Some d \<Rightarrow> if truthy d then run_daily L g ?args fs1
                             else run_once L g ?args fs1)
                = Some (fs1, [], Inl AttributeError)" for g fs1
    using nodaily by (cases "?args ''daily''") (simp_all add: once)
  have ok: "main L W c fs = Some (fs1, [], Inl AttributeError)"
    if "?args ''apps'' = Some a" "convert_apps W a = Inr apps"
      "Google_init W ?args apps fs = (fs1, Inr g)" for a apps fs1 g
    using that branch [of fs1 g] by (simp add: main_def)
  have "\<exists>fs' e. main L W c fs = Some (fs', [], Inl e) \<and> files fs' = files fs"
  proof (cases "?args ''apps''")
    case None
    then show ?thesis by (simp add: main_def)
  next
    case (Some a)
    show ?thesis
    proof (cases "convert_apps W a")
      case (Inl e)
      with Some show ?thesis by (simp add: main_def)
    next
      case (Inr apps)
      obtain fs1 r where gi: "Google_init W ?args apps fs = (fs1, r)"
        by (cases "Google_init W ?args apps fs")
      then have fl: "files fs1 = files fs" by (rule Google_init_files)
      show ?thesis
      proof (cases r)
        case (Inl e)
        with Some \<open>convert_apps W a = Inr apps\<close> gi fl show ?thesis by (simp add: main_def)
      next
        case (Inr g)
        with ok [OF Some \<open>convert_apps W a = Inr apps\<close>] gi fl show ?thesis by simp
      qed
    qed
  qed
  with ok show ?thesis by blast
qed

lemma daily_config_of: "config_of sample_world daily_cli = daily_config"
  by (simp add: config_of_def sample_world_def daily_cli_def plain_cli_def)

lemma convert_apps_a: "convert_apps W (PStr ''a'') = Inr [''a'']"
  by (simp add: convert_apps_def strip_def lower_def is_space_def)

lemma plain_merged:
  "load_config sample_world (parse_args plain_cli) ''apps'' = Some (PStr ''a'')"
  "load_config sample_world (parse_args plain_cli) ''creds_path'' = Some (PStr ''creds.json'')"
  "load_config sample_world (parse_args plain_cli) ''delegated_creds'' = Some (PStr ''admin'')"
  "load_config sample_world (parse_args plain_cli) ''output_path'' = Some (PStr ''out'')"
  "load_config sample_world (parse_args plain_cli) ''update'' = Some (PBool False)"
  "load_config sample_world (parse_args plain_cli) ''overwrite'' = Some (PBool False)"
  by (simp_all only: load_config_eq plain_config_of)
     (simp_all add: plain_config_def parse_args_def plain_cli_def opt_str_def)

lemma daily_merged:
  "load_config sample_world (parse_args daily_cli) ''apps'' = Some (PStr ''a'')"
  "load_config sample_world (parse_args daily_cli) ''creds_path'' = Some (PStr ''creds.json'')"
  "load_config sample_world (parse_args daily_cli) ''delegated_creds'' = Some (PStr ''admin'')"
  "load_config sample_world (parse_args daily_cli) ''output_path'' = Some (PStr ''out'')"
  "load_config sample_world (parse_args daily_cli) ''update'' = Some (PBool False)"
  "load_config sample_world (parse_args daily_cli) ''overwrite'' = Some (PBool False)"
  "load_config sample_world (parse_args daily_cli) ''daily'' = Some (PBool True)"
  "load_config sample_world (parse_args daily_cli) ''start_time'' = Some (PStr ''S0'')"
  "load_config sample_world (parse_args daily_cli) ''end_time'' = Some (PStr ''S1'')"
  "load_config sample_world (parse_args daily_cli) ''from_date'' = None"
  by (simp_all only: load_config_eq daily_config_of)
     (simp_all add: daily_config_def parse_args_def daily_cli_def plain_cli_def opt_str_def)

lemma sample_init:
  "kwargs ''creds_path'' = Some (PStr ''creds.json'') \<Longrightarrow>
   kwargs ''delegated_creds'' = Some (PStr ''admin'') \<Longrightarrow>
   kwargs ''output_path'' = Some (PStr ''out'') \<Longrightarrow>
   kwargs ''update'' = Some (PBool False) \<Longrightarrow>
   kwargs ''overwrite'' = Some (PBool False) \<Longrightarrow>
   Google_init sample_world kwargs apps empty_fs
     = (mkdir ''out'' empty_fs, Inr (sample_google apps False False))"
  by (simp add: Google_init_def make_output_path_def sample_world_def sample_google_def
        empty_fs_def)

text \<open>C9, as the specification has it, speaks of the command line only. A
  configuration file can turn the daily split on: then a run without \<open>--daily\<close> and
  without any \<open>from_date\<close> fetches the logs of the application and ends normally.\<close>

theorem config_daily_run_fetches_without_from_date:
  "opt_daily daily_cli = False \<and>
   ''from_date'' \<notin> fst ` set (config_of sample_world daily_cli) \<and>
   map_option (\<lambda>(fs', calls, r). (map fetch_app calls, r))
     (main sample_lib sample_world daily_cli empty_fs) = Some ([''a''], Inr ())"
proof -
  let ?g = "sample_google [''a''] False False"
  let ?args = "load_config sample_world (parse_args daily_cli)"
  let ?fs1 = "mkdir ''out'' empty_fs"
  from one_app_run [of "''a''" "PStr ''S0''" "PStr ''S''" ?fs1]
  obtain fs' call where
    run: "get_logs sample_lib ?g (PStr ''S0'') (PStr ''S'') ?fs1 = Some (fs', [call], Inr (3, 3))"
    and app: "fetch_app call = ''a''"
    by auto
  have st: "strptime_arg sample_lib (PStr ''S0'') = Inr 0"
    "strptime_arg sample_lib (PStr ''S1'') = Inr 86400000000"
    "strftime sample_lib 0 = ''S0''" "strftime sample_lib 86399999999 = ''S''"
    by (simp_all add: strptime_arg_def sample_lib_def)
  have w: "min (get_end_of_the_day 0) 86400000000 = 86399999999"
    by (simp add: sample_days)
  have "daily_loop sample_lib ?g 0 86400000000 ?fs1
      = Some (fs', [(0, 86399999999)], [call], Inr ())"
    using daily_loop_step [of 0 86400000000 sample_lib ?g ?fs1 fs' "[call]" "(3, 3)"] run
    by (simp add: w st sample_days daily_loop_done DAY_def DATETIME_END_def)
  then have daily: "run_daily sample_lib ?g ?args ?fs1 = Some (fs', [call], Inr ())"
    by (simp add: run_daily_def daily_merged st)
  have init: "Google_init sample_world ?args [''a''] empty_fs = (?fs1, Inr ?g)"
    by (rule sample_init) (simp_all add: daily_merged)
  have "main sample_lib sample_world daily_cli empty_fs = Some (fs', [call], Inr ())"
    by (simp add: main_def daily_merged convert_apps_a init daily)
  then have "map_option (\<lambda>(fs', calls, r). (map fetch_app calls, r))
     (main sample_lib sample_world daily_cli empty_fs) = Some ([''a''], Inr ())"
    by (simp add: app)
  moreover have "opt_daily daily_cli = False"
    by (simp add: daily_cli_def plain_cli_def)
  moreover have "''from_date'' \<notin> fst ` set (config_of sample_world daily_cli)"
    by (simp add: daily_config_of daily_config_def)
  ultimately show ?thesis by blast
qed

theorem non_daily_run_needs_from_date_witness:
  "\<not> opt_daily plain_cli \<and>
   config_of sample_world plain_cli = plain_config \<and>
   ''from_date'' \<notin> fst ` set plain_config \<and>
   ''daily'' \<notin> fst ` set plain_config \<and>
   Google_init sample_world (load_config sample_world (parse_args plain_cli)) [''a''] empty_fs
     = (mkdir ''out'' empty_fs, Inr (sample_google [''a''] False False)) \<and>
   main sample_lib sample_world plain_cli empty_fs
     = Some (mkdir ''out'' empty_fs, [], Inl AttributeError)"
proof -
  have h1: "\<not> opt_daily plain_cli" by (simp add: plain_cli_def)
  have h2: "\<forall>v. (''daily'', v) \<in> set (config_of sample_world plain_cli) \<longrightarrow> \<not> truthy v"
    by (simp add: plain_config_of plain_config_def)
  have h3: "''from_date'' \<notin> fst ` set (config_of sample_world plain_cli)"
    by (simp add: plain_config_of plain_config_def)
  have init: "Google_init sample_world (load_config sample_world (parse_args plain_cli)) [''a'']
      empty_fs = (mkdir ''out'' empty_fs, Inr (sample_google [''a''] False False))"
    by (rule sample_init) (simp_all add: plain_merged)
  from non_daily_run_needs_from_date [OF h1 h2 h3, of sample_lib empty_fs]
    plain_merged(1) convert_apps_a [of sample_world] init
  have "main sample_lib sample_world plain_cli empty_fs
     = Some (mkdir ''out'' empty_fs, [], Inl AttributeError)"
    by blast
  moreover have "''from_date'' \<notin> fst ` set plain_config" "''daily'' \<notin> fst ` set plain_config"
    by (simp_all add: plain_config_def)
  ultimately show ?thesis using h1 init plain_config_of by blast
qed

end
